theory Spec2Isabelle
  imports Complex_Main
begin

section \<open>Text: line splitting, joining and indentation\<close>

text \<open>
  A Python text is modelled as a \<open>string\<close>, one \<open>char\<close> per character of the text; the
  characters that an 8-bit \<open>char\<close> can hold are the code points below 256. The line
  boundaries of \<^verbatim>\<open>str.splitlines\<close> among them are LF, CR, CR LF, VT, FF, FS, GS, RS and
  NEL (the two remaining boundaries of Python, U+2028 and U+2029, lie beyond that range).
\<close>

definition LF :: char where "LF = CHR 0x0A"

definition CR :: char where "CR = CHR 0x0D"

definition is_linebreak :: "char \<Rightarrow> bool" where
  "is_linebreak c =
     (c = CHR 0x0A \<or> c = CHR 0x0D \<or> c = CHR 0x0B \<or> c = CHR 0x0C \<or>
      c = CHR 0x1C \<or> c = CHR 0x1D \<or> c = CHR 0x1E \<or> c = CHR 0x85)"

text \<open>
  \<^verbatim>\<open>text.splitlines()\<close>: the scan of the text, with the line read so far as first
  argument. A boundary ends the line (CR LF counts once); the end of the text ends a line
  only when characters were read since the last boundary, so that a final boundary gives
  no empty last line and the empty text gives no line at all.
\<close>

fun splitlines_from :: "string \<Rightarrow> string \<Rightarrow> string list" where
  "splitlines_from line [] = (if line = [] then [] else [line])"
| "splitlines_from line (c # cs) =
     (if c = CR \<and> cs \<noteq> [] \<and> hd cs = LF then line # splitlines_from [] (tl cs)
      else if is_linebreak c then line # splitlines_from [] cs
      else splitlines_from (line @ [c]) cs)"

definition splitlines :: "string \<Rightarrow> string list" where
  "splitlines text = splitlines_from [] text"

text \<open>A text without any line boundary, as every line that \<^verbatim>\<open>splitlines\<close> gives.\<close>

definition no_linebreak :: "string \<Rightarrow> bool" where
  "no_linebreak s = list_all (\<lambda>c. \<not> is_linebreak c) s"

text \<open>
  A text that is empty or ends in a newline, as the text of every node is; and the text
  of a list of lines, each line followed by a newline.
\<close>

definition ends_nl :: "string \<Rightarrow> bool" where
  "ends_nl t = (t = [] \<or> last t = LF)"

definition unlines :: "string list \<Rightarrow> string" where
  "unlines ls = concat (map (\<lambda>l. l @ [LF]) ls)"

text \<open>\<^verbatim>\<open>sep.join(xs)\<close> on a list of texts.\<close>

fun str_join :: "string \<Rightarrow> string list \<Rightarrow> string" where
  "str_join sep [] = []"
| "str_join sep [x] = x"
| "str_join sep (x # y # ys) = x @ sep @ str_join sep (y # ys)"

text \<open>
  \<^verbatim>\<open>
  def indent(text):
      lines = text.splitlines()
      return '\n'.join('    ' + line for line in lines) + '\n'
  \<close>
\<close>

definition indent :: "string \<Rightarrow> string" where
  "indent text =
     (let lines = splitlines text
      in str_join ''\<newline>'' (map (\<lambda>line. ''    '' @ line) lines) @ ''\<newline>'')"

text \<open>
  \<^verbatim>\<open>str.rstrip()\<close> removes the trailing run of whitespace characters; below 256 these
  are TAB, LF, VT, FF, CR, FS, GS, RS, US, space, NEL and the no-break space.
\<close>

definition is_space :: "char \<Rightarrow> bool" where
  "is_space c =
     (c = CHR 0x09 \<or> c = CHR 0x0A \<or> c = CHR 0x0B \<or> c = CHR 0x0C \<or> c = CHR 0x0D \<or>
      c = CHR 0x1C \<or> c = CHR 0x1D \<or> c = CHR 0x1E \<or> c = CHR 0x1F \<or> c = CHR 0x20 \<or>
      c = CHR 0x85 \<or> c = CHR 0xA0)"

definition rstrip :: "string \<Rightarrow> string" where
  "rstrip s = rev (dropWhile is_space (rev s))"

section \<open>Decoded JSON values and the Python operations on them\<close>

text \<open>
  What \<^verbatim>\<open>simplejson.loads\<close> returns: \<^verbatim>\<open>None\<close>, a bool, a number, a text, a list, or a
  dict (an association list of its items, in the dict's iteration order; a lookup takes
  the first item with the key).
\<close>

datatype json =
    JNull
  | JBool bool
  | JNum rat
  | JStr string
  | JArr "json list"
  | JObj "(string \<times> json) list"

text \<open>
  The exceptions of the code. An \<^verbatim>\<open>AssertionError\<close> carries the value of the expression
  after the comma of its \<^verbatim>\<open>assert\<close>: the pair of key sets in \<^verbatim>\<open>_check_keys\<close>, the
  \<^verbatim>\<open>type\<close> field in \<^verbatim>\<open>to_property\<close>, the remaining keyword arguments in
  \<^verbatim>\<open>format_css\<close>. A \<^verbatim>\<open>KeyError\<close> carries the key that was not found. \<open>ExternalError\<close>
  stands for whatever the collaborators outside this module raise (the bootstrap of the
  node environment, the subprocess call, the JSON decoder).
\<close>

datatype payload =
    KeySets "json set" "json set"
  | TypeField json
  | Kwargs "(string \<times> bool) list"

datatype error =
    AssertionError payload
  | KeyError json
  | TypeError
  | AttributeError
  | CalledProcessError int string string
  | ExternalError string

text \<open>
  \<^verbatim>\<open>d[key]\<close> with a text as key: a dict looks the key up and raises \<^verbatim>\<open>KeyError\<close> when it
  is absent; a list or a text takes integer indices only and a number, a bool or
  \<^verbatim>\<open>None\<close> has no subscript, which is a \<^verbatim>\<open>TypeError\<close> each time.
\<close>

fun py_getitem :: "json \<Rightarrow> string \<Rightarrow> error + json" where
  "py_getitem (JObj kvs) key =
     (case map_of kvs key of None \<Rightarrow> Inl (KeyError (JStr key)) | Some v \<Rightarrow> Inr v)"
| "py_getitem _ key = Inl TypeError"

text \<open>\<^verbatim>\<open>d.get(key, default)\<close>, a method of dicts only.\<close>

fun py_get :: "json \<Rightarrow> string \<Rightarrow> json \<Rightarrow> error + json" where
  "py_get (JObj kvs) key dflt = (case map_of kvs key of None \<Rightarrow> Inr dflt | Some v \<Rightarrow> Inr v)"
| "py_get _ key dflt = Inl AttributeError"

text \<open>
  Iteration (\<^verbatim>\<open>for x in v\<close>): a list gives its elements, a dict its keys, a text its
  characters as one-character texts; anything else is not iterable.
\<close>

fun py_iter :: "json \<Rightarrow> error + json list" where
  "py_iter (JArr xs) = Inr xs"
| "py_iter (JObj kvs) = Inr (map (\<lambda>kv. JStr (fst kv)) kvs)"
| "py_iter (JStr s) = Inr (map (\<lambda>c. JStr [c]) s)"
| "py_iter _ = Inl TypeError"

text \<open>
  Hashing and equality of set elements and dict keys: a list or a dict is unhashable
  (\<^verbatim>\<open>TypeError\<close>); \<^verbatim>\<open>True\<close> and \<^verbatim>\<open>False\<close> are equal to the numbers 1 and 0, so a set
  holds one of them only. \<open>py_key\<close> gives the representative.
\<close>

fun hashable :: "json \<Rightarrow> bool" where
  "hashable (JArr _) = False"
| "hashable (JObj _) = False"
| "hashable _ = True"

fun py_key :: "json \<Rightarrow> json" where
  "py_key (JBool b) = JNum (if b then 1 else 0)"
| "py_key v = v"

text \<open>\<^verbatim>\<open>set(v)\<close>: the set of what iterating \<open>v\<close> gives.\<close>

definition py_set :: "json \<Rightarrow> error + json set" where
  "py_set v =
     (case py_iter v of
        Inl e \<Rightarrow> Inl e
      | Inr xs \<Rightarrow> if list_all hashable xs then Inr (set (map py_key xs)) else Inl TypeError)"

text \<open>\<^verbatim>\<open>sep.join(v)\<close>: every element that iterating \<open>v\<close> gives must be a text.\<close>

fun is_str :: "json \<Rightarrow> bool" where
  "is_str (JStr _) = True"
| "is_str _ = False"

fun str_of :: "json \<Rightarrow> string" where
  "str_of (JStr s) = s"
| "str_of _ = []"

definition py_join :: "string \<Rightarrow> json \<Rightarrow> error + string" where
  "py_join sep v =
     (case py_iter v of
        Inl e \<Rightarrow> Inl e
      | Inr xs \<Rightarrow> if list_all is_str xs then Inr (str_join sep (map str_of xs)) else Inl TypeError)"

text \<open>
  \<^verbatim>\<open>tuple(f(x) for x in xs)\<close>: the elements are converted from left to right and the
  first exception ends the whole expression.
\<close>

fun mapM :: "('a \<Rightarrow> error + 'b) \<Rightarrow> 'a list \<Rightarrow> error + 'b list" where
  "mapM f [] = Inr []"
| "mapM f (x # xs) =
     (case f x of
        Inl e \<Rightarrow> Inl e
      | Inr y \<Rightarrow> (case mapM f xs of Inl e \<Rightarrow> Inl e | Inr ys \<Rightarrow> Inr (y # ys)))"

section \<open>The typed nodes and their rendering\<close>

text \<open>
  The named tuples of the code. A field that a converter copies from the decoded record
  (\<^verbatim>\<open>charset\<close>, \<^verbatim>\<open>vendor\<close>, \<^verbatim>\<open>name\<close>, \<^verbatim>\<open>media\<close>, a property's name and value) holds
  whatever value the record has there; the selectors of a rule and the values of a
  keyframe are the text that \<^verbatim>\<open>', '.join\<close> built, the sequences are tuples.
\<close>

datatype property = Property json json

datatype keyframe = KeyFrame string "property list"

datatype node =
    Charset json
  | KeyFrames json json "keyframe list"
  | MediaQuery json "node list"
  | Rule string "property list"

text \<open>
  The keyword arguments that \<^verbatim>\<open>format_css\<close> hands to every \<^verbatim>\<open>to_text\<close>, always both.
\<close>

record kwargs =
  ignore_charset :: bool
  ignore_empty_rules :: bool

text \<open>
  \<^verbatim>\<open>'{0}'.format(v)\<close>: a text is inserted as it is. What Python prints for a value that is
  not a text (a number, \<^verbatim>\<open>None\<close>, a list, ...) is left open: \<open>py_str\<close>, a parameter of
  every rendering function, stands for it.
\<close>

fun format_field :: "(json \<Rightarrow> string) \<Rightarrow> json \<Rightarrow> string" where
  "format_field py_str (JStr s) = s"
| "format_field py_str v = py_str v"

fun Property_to_text :: "(json \<Rightarrow> string) \<Rightarrow> kwargs \<Rightarrow> property \<Rightarrow> string" where
  "Property_to_text py_str kw (Property name val) =
     ''    '' @ format_field py_str name @ '': '' @ format_field py_str val @ '';\<newline>''"

fun KeyFrame_to_text :: "(json \<Rightarrow> string) \<Rightarrow> kwargs \<Rightarrow> keyframe \<Rightarrow> string" where
  "KeyFrame_to_text py_str kw (KeyFrame vals props) =
     vals @ '' {\<newline>'' @ concat (map (Property_to_text py_str kw) props) @ ''}\<newline>''"

fun to_text :: "(json \<Rightarrow> string) \<Rightarrow> kwargs \<Rightarrow> node \<Rightarrow> string" where
  "to_text py_str kw (Charset charset) =
     (if ignore_charset kw then []
      else ''@charset '' @ format_field py_str charset @ '';\<newline>'')"
| "to_text py_str kw (KeyFrames vendor name keyframes) =
     ''@'' @ format_field py_str vendor @ ''keyframes '' @ format_field py_str name @ '' {\<newline>'' @
     indent (concat (map (KeyFrame_to_text py_str kw) keyframes)) @ ''}\<newline>''"
| "to_text py_str kw (MediaQuery media rules) =
     ''@media '' @ format_field py_str media @ '' {\<newline>'' @
     indent (concat (map (to_text py_str kw) rules)) @ ''}\<newline>''"
| "to_text py_str kw (Rule sels props) =
     (if ignore_empty_rules kw \<and> props = [] then []
      else sels @ '' {\<newline>'' @ concat (map (Property_to_text py_str kw) props) @ ''}\<newline>'')"



text \<open>
  A node all of whose fields are texts without line boundary, as the parser gives them
  for a style sheet.
\<close>

fun plain_text :: "json \<Rightarrow> bool" where
  "plain_text (JStr s) = no_linebreak s"
| "plain_text _ = False"

fun plain_property :: "property \<Rightarrow> bool" where
  "plain_property (Property name val) = (plain_text name \<and> plain_text val)"

fun plain_keyframe :: "keyframe \<Rightarrow> bool" where
  "plain_keyframe (KeyFrame vals props) = (no_linebreak vals \<and> list_all plain_property props)"

fun plain_node :: "node \<Rightarrow> bool" where
  "plain_node (Charset charset) = plain_text charset"
| "plain_node (KeyFrames vendor name keyframes) =
     (plain_text vendor \<and> plain_text name \<and> list_all plain_keyframe keyframes)"
| "plain_node (MediaQuery media rules) = (plain_text media \<and> list_all plain_node rules)"
| "plain_node (Rule sels props) = (no_linebreak sels \<and> list_all plain_property props)"

text \<open>
  The specification's reading of the rendering, to compare the code with, as the list of
  the lines of the text: a property is one line behind four spaces; a block is its header
  line ending in an opening brace, the lines of its children in the order of the
  sequence, and the closing brace; the children of a keyframes block and of a media query
  are indented by four spaces, and where there is no line to indent there is one empty
  line.
\<close>

fun spec_property_line :: "property \<Rightarrow> string" where
  "spec_property_line (Property name val) = ''    '' @ str_of name @ '': '' @ str_of val @ '';''"

fun spec_keyframe_lines :: "keyframe \<Rightarrow> string list" where
  "spec_keyframe_lines (KeyFrame vals props) =
     [vals @ '' {''] @ map spec_property_line props @ [''}'']"

definition spec_indented :: "string list \<Rightarrow> string list" where
  "spec_indented ls = (if ls = [] then [[]] else map (\<lambda>line. ''    '' @ line) ls)"

fun spec_lines :: "kwargs \<Rightarrow> node \<Rightarrow> string list" where
  "spec_lines kw (Charset charset) =
     (if ignore_charset kw then [] else [''@charset '' @ str_of charset @ '';''])"
| "spec_lines kw (KeyFrames vendor name keyframes) =
     [''@'' @ str_of vendor @ ''keyframes '' @ str_of name @ '' {''] @
     spec_indented (concat (map spec_keyframe_lines keyframes)) @ [''}'']"
| "spec_lines kw (MediaQuery media rules) =
     [''@media '' @ str_of media @ '' {''] @
     spec_indented (concat (map (spec_lines kw) rules)) @ [''}'']"
| "spec_lines kw (Rule sels props) =
     (if ignore_empty_rules kw \<and> props = [] then []
      else [sels @ '' {''] @ map spec_property_line props @ [''}''])"

section \<open>Building the typed nodes from the decoded records\<close>

text \<open>
  \<^verbatim>\<open>
  def _check_keys(d, keys):
      keys = keys + ('position', 'type')
      assert set(d) <= set(keys), (set(d), set(keys))
  \<close>
\<close>

definition check_keys :: "json \<Rightarrow> string list \<Rightarrow> error + unit" where
  "check_keys d keys =
     (let keys = keys @ [''position'', ''type'']
      in case py_set d of
           Inl e \<Rightarrow> Inl e
         | Inr ds \<Rightarrow>
             if ds \<subseteq> set (map JStr keys) then Inr ()
             else Inl (AssertionError (KeySets ds (set (map JStr keys)))))"

definition to_property :: "json \<Rightarrow> error + property" where
  "to_property declaration_dict =
     (case py_getitem declaration_dict ''type'' of
        Inl e \<Rightarrow> Inl e
      | Inr t \<Rightarrow>
          if t \<noteq> JStr ''declaration'' then Inl (AssertionError (TypeField t))
          else (case check_keys declaration_dict [''property'', ''value''] of
             Inl e \<Rightarrow> Inl e
           | Inr _ \<Rightarrow>
               (case py_getitem declaration_dict ''property'' of
                  Inl e \<Rightarrow> Inl e
                | Inr p \<Rightarrow>
                    (case py_getitem declaration_dict ''value'' of
                       Inl e \<Rightarrow> Inl e
                     | Inr v \<Rightarrow> Inr (Property p v)))))"

definition to_charset :: "json \<Rightarrow> error + node" where
  "to_charset charset_dict =
     (case check_keys charset_dict [''charset''] of
        Inl e \<Rightarrow> Inl e
      | Inr _ \<Rightarrow>
          (case py_getitem charset_dict ''charset'' of
             Inl e \<Rightarrow> Inl e
           | Inr c \<Rightarrow> Inr (Charset c)))"

definition to_keyframe :: "json \<Rightarrow> error + keyframe" where
  "to_keyframe keyframe_dict =
     (case check_keys keyframe_dict [''declarations'', ''values''] of
        Inl e \<Rightarrow> Inl e
      | Inr _ \<Rightarrow>
          (case py_getitem keyframe_dict ''declarations'' of
             Inl e \<Rightarrow> Inl e
           | Inr decls \<Rightarrow>
               (case py_iter decls of
                  Inl e \<Rightarrow> Inl e
                | Inr ds \<Rightarrow>
                    (case mapM to_property ds of
                       Inl e \<Rightarrow> Inl e
                     | Inr properties \<Rightarrow>
                         (case py_getitem keyframe_dict ''values'' of
                            Inl e \<Rightarrow> Inl e
                          | Inr vals \<Rightarrow>
                              (case py_join '', '' vals of
                                 Inl e \<Rightarrow> Inl e
                               | Inr joined \<Rightarrow> Inr (KeyFrame joined properties)))))))"

text \<open>
  \<^verbatim>\<open>generic_to_node\<close> looks the converter up in \<^verbatim>\<open>TO_NODE_TYPES\<close> under the record's
  \<^verbatim>\<open>type\<close> (an unhashable key is a \<^verbatim>\<open>TypeError\<close>, an absent one a \<^verbatim>\<open>KeyError\<close>) and
  \<^verbatim>\<open>to_media_query\<close> converts its rules with \<^verbatim>\<open>generic_to_node\<close>: the two are mutually
  recursive, the recursion descending into the record. The lemmas before the definition
  serve its termination proof.
\<close>

lemma mapM_cong [fundef_cong]:
  "xs = ys \<Longrightarrow> (\<And>x. x \<in> set ys \<Longrightarrow> f x = g x) \<Longrightarrow> mapM f xs = mapM g ys"
  by (induction ys arbitrary: xs) (auto split: sum.splits)

lemma size_map_of: "map_of kvs k = Some v \<Longrightarrow> size v < size (JObj kvs)"
  by (induction kvs) (auto split: if_splits)

lemma size_list_member: "x \<in> set xs \<Longrightarrow> size x \<le> size_list size xs"
  by (induction xs) auto

lemma size_py_iter: "py_iter v = Inr xs \<Longrightarrow> x \<in> set xs \<Longrightarrow> size x \<le> size v"
  by (cases v) (auto dest: size_list_member)

lemma size_py_getitem: "py_getitem d k = Inr v \<Longrightarrow> size v < size d"
  by (cases d) (auto split: option.splits dest: size_map_of)

definition to_keyframes :: "json \<Rightarrow> error + node" where
  "to_keyframes keyframes_dict =
     (case check_keys keyframes_dict [''vendor'', ''name'', ''keyframes''] of
        Inl e \<Rightarrow> Inl e
      | Inr _ \<Rightarrow>
          (case py_getitem keyframes_dict ''keyframes'' of
             Inl e \<Rightarrow> Inl e
           | Inr kfs \<Rightarrow>
               (case py_iter kfs of
                  Inl e \<Rightarrow> Inl e
                | Inr ks \<Rightarrow>
                    (case mapM to_keyframe ks of
                       Inl e \<Rightarrow> Inl e
                     | Inr keyframes \<Rightarrow>
                         (case py_get keyframes_dict ''vendor'' (JStr []) of
                            Inl e \<Rightarrow> Inl e
                          | Inr vendor \<Rightarrow>
                              (case py_getitem keyframes_dict ''name'' of
                                 Inl e \<Rightarrow> Inl e
                               | Inr name \<Rightarrow> Inr (KeyFrames vendor name keyframes)))))))"

definition to_rule :: "json \<Rightarrow> error + node" where
  "to_rule rule_dict =
     (case check_keys rule_dict [''selectors'', ''declarations''] of
        Inl e \<Rightarrow> Inl e
      | Inr _ \<Rightarrow>
          (case py_getitem rule_dict ''selectors'' of
             Inl e \<Rightarrow> Inl e
           | Inr sels \<Rightarrow>
               (case py_join '', '' sels of
                  Inl e \<Rightarrow> Inl e
                | Inr selectors \<Rightarrow>
                    (case py_getitem rule_dict ''declarations'' of
                       Inl e \<Rightarrow> Inl e
                     | Inr decls \<Rightarrow>
                         (case py_iter decls of
                            Inl e \<Rightarrow> Inl e
                          | Inr ds \<Rightarrow>
                              (case mapM to_property ds of
                                 Inl e \<Rightarrow> Inl e
                               | Inr properties \<Rightarrow> Inr (Rule selectors properties)))))))"

function generic_to_node :: "json \<Rightarrow> error + node"
  and to_media_query :: "json \<Rightarrow> error + node" where
  "generic_to_node node_dict =
     (case py_getitem node_dict ''type'' of
        Inl e \<Rightarrow> Inl e
      | Inr t \<Rightarrow>
          if \<not> hashable t then Inl TypeError
          else if t = JStr ''charset'' then to_charset node_dict
          else if t = JStr ''keyframes'' then to_keyframes node_dict
          else if t = JStr ''media'' then to_media_query node_dict
          else if t = JStr ''rule'' then to_rule node_dict
          else Inl (KeyError t))"
| "to_media_query media_query_dict =
     (case check_keys media_query_dict [''media'', ''rules''] of
        Inl e \<Rightarrow> Inl e
      | Inr _ \<Rightarrow>
          (case py_getitem media_query_dict ''rules'' of
             Inl e \<Rightarrow> Inl e
           | Inr rs \<Rightarrow>
               (case py_iter rs of
                  Inl e \<Rightarrow> Inl e
                | Inr ns \<Rightarrow>
                    (case mapM generic_to_node ns of
                       Inl e \<Rightarrow> Inl e
                     | Inr rules \<Rightarrow>
                         (case py_getitem media_query_dict ''media'' of
                            Inl e \<Rightarrow> Inl e
                          | Inr media \<Rightarrow> Inr (MediaQuery media rules))))))"
  by pat_completeness auto

termination
proof (relation "measure (\<lambda>x. case x of Inl d \<Rightarrow> 2 * size d + 1 | Inr d \<Rightarrow> 2 * size d)")
  show "wf (measure (\<lambda>x. case x of Inl d \<Rightarrow> 2 * size d + 1 | Inr d \<Rightarrow> 2 * size d))"
    by simp
next
  fix node_dict :: json and t :: json
  show "(Inr node_dict, Inl node_dict)
        \<in> measure (\<lambda>x. case x of Inl d \<Rightarrow> 2 * size d + 1 | Inr d \<Rightarrow> 2 * size d)"
    by simp
next
  fix media_query_dict :: json and u :: unit and rs :: json and ns :: "json list" and x :: json
  assume "py_getitem media_query_dict ''rules'' = Inr rs" "py_iter rs = Inr ns" "x \<in> set ns"
  then have "size x < size media_query_dict"
    using size_py_getitem size_py_iter by (meson le_less_trans)
  then show "(Inl x, Inr media_query_dict)
        \<in> measure (\<lambda>x. case x of Inl d \<Rightarrow> 2 * size d + 1 | Inr d \<Rightarrow> 2 * size d)"
    by simp
qed

text \<open>
  \<^verbatim>\<open>
  TO_NODE_TYPES = {
      'charset': to_charset,
      'keyframes': to_keyframes,
      'media': to_media_query,
      'rule': to_rule,
  }
  \<close>
\<close>

definition TO_NODE_TYPES :: "(string \<times> (json \<Rightarrow> error + node)) list" where
  "TO_NODE_TYPES =
     [(''charset'', to_charset),
      (''keyframes'', to_keyframes),
      (''media'', to_media_query),
      (''rule'', to_rule)]"

section \<open>The entry points\<close>

text \<open>
  What \<^verbatim>\<open>format_css\<close> calls outside this module: \<^verbatim>\<open>require_nodeenv()\<close>, which returns or
  raises; the subprocess that runs the parser on the encoded contents, giving its return
  code and its decoded output and error streams (or raising); \<^verbatim>\<open>simplejson.loads\<close>.
\<close>

record env =
  require_nodeenv :: "error option"
  communicate :: "string \<Rightarrow> error + (int \<times> string \<times> string)"
  loads :: "string \<Rightarrow> error + json"

text \<open>
  \<^verbatim>\<open>format_css(contents, **kwargs)\<close>, the keyword arguments as the list of their items:
  the two options are popped with default \<^verbatim>\<open>False\<close>, any other keyword fails the
  \<^verbatim>\<open>assert\<close>. The value returned is the joined text of the top-level nodes.
\<close>

definition format_css ::
  "(json \<Rightarrow> string) \<Rightarrow> env \<Rightarrow> string \<Rightarrow> (string \<times> bool) list \<Rightarrow> error + string" where
  "format_css py_str env contents kwargs =
     (let ic = (case map_of kwargs ''ignore_charset'' of None \<Rightarrow> False | Some b \<Rightarrow> b);
          ier = (case map_of kwargs ''ignore_empty_rules'' of None \<Rightarrow> False | Some b \<Rightarrow> b);
          kwargs = filter (\<lambda>kv. fst kv \<noteq> ''ignore_charset'' \<and> fst kv \<noteq> ''ignore_empty_rules'') kwargs
      in if kwargs \<noteq> [] then Inl (AssertionError (Kwargs kwargs))
         else (case require_nodeenv env of
            Some e \<Rightarrow> Inl e
          | None \<Rightarrow>
              (case communicate env contents of
                 Inl e \<Rightarrow> Inl e
               | Inr (returncode, out, err) \<Rightarrow>
                   if returncode \<noteq> 0 then Inl (CalledProcessError returncode out err)
                   else (case loads env out of
                      Inl e \<Rightarrow> Inl e
                    | Inr decoded \<Rightarrow>
                        (case py_getitem decoded ''stylesheet'' of
                           Inl e \<Rightarrow> Inl e
                         | Inr sheet \<Rightarrow>
                             (case py_getitem sheet ''rules'' of
                                Inl e \<Rightarrow> Inl e
                              | Inr rs \<Rightarrow>
                                  (case py_iter rs of
                                     Inl e \<Rightarrow> Inl e
                                   | Inr ds \<Rightarrow>
                                       (case mapM generic_to_node ds of
                                          Inl e \<Rightarrow> Inl e
                                        | Inr rules \<Rightarrow>
                                            Inr (concat (map
                                              (to_text py_str
                                                 \<lparr>ignore_charset = ic, ignore_empty_rules = ier\<rparr>)
                                              rules))))))))))"

text \<open>
  \<^verbatim>\<open>main\<close>, from the contents of the file it has read: the text it prints, which is
  \<^verbatim>\<open>format_css(contents).rstrip()\<close> and the newline of \<^verbatim>\<open>print\<close>.
\<close>

definition main :: "(json \<Rightarrow> string) \<Rightarrow> env \<Rightarrow> string \<Rightarrow> error + string" where
  "main py_str env contents =
     (case format_css py_str env contents [] of
        Inl e \<Rightarrow> Inl e
      | Inr text \<Rightarrow> Inr (rstrip text @ ''\<newline>''))"

section \<open>Key sets and node kinds\<close>

text \<open>
  The two sets that \<^verbatim>\<open>_check_keys\<close> compares, for a dict given by its items: the set
  of its keys, and the set of the keys allowed for the fields that the converter names.
\<close>

definition key_set :: "(string \<times> json) list \<Rightarrow> json set" where
  "key_set kvs = set (map (\<lambda>kv. JStr (fst kv)) kvs)"

definition allowed_keys :: "string list \<Rightarrow> json set" where
  "allowed_keys keys = set (map JStr (keys @ [''position'', ''type'']))"

text \<open>
  An error other than a pair of key sets of which the first is within the second: no
  converter raises such a pair.
\<close>

fun proper_error :: "error \<Rightarrow> bool" where
  "proper_error (AssertionError (KeySets ks allowed)) = (\<not> ks \<subseteq> allowed)"
| "proper_error _ = True"

text \<open>
  The six converters side by side: the fields each hands to \<^verbatim>\<open>_check_keys\<close>, the fields
  each reads by subscript, in the order in which it reads them (\<^verbatim>\<open>vendor\<close> is read with
  \<^verbatim>\<open>get\<close> and a default, so it is not among them), and the converter itself, its result
  tagged with the type it builds.
\<close>

datatype kind = OfDeclaration | OfCharset | OfKeyframe | OfKeyframes | OfMedia | OfRule

fun declared_fields :: "kind \<Rightarrow> string list" where
  "declared_fields OfDeclaration = [''property'', ''value'']"
| "declared_fields OfCharset = [''charset'']"
| "declared_fields OfKeyframe = [''declarations'', ''values'']"
| "declared_fields OfKeyframes = [''vendor'', ''name'', ''keyframes'']"
| "declared_fields OfMedia = [''media'', ''rules'']"
| "declared_fields OfRule = [''selectors'', ''declarations'']"

fun required_fields :: "kind \<Rightarrow> string list" where
  "required_fields OfDeclaration = [''type'', ''property'', ''value'']"
| "required_fields OfCharset = [''charset'']"
| "required_fields OfKeyframe = [''declarations'', ''values'']"
| "required_fields OfKeyframes = [''keyframes'', ''name'']"
| "required_fields OfMedia = [''rules'', ''media'']"
| "required_fields OfRule = [''selectors'', ''declarations'']"

datatype built = BuiltProperty property | BuiltKeyFrame keyframe | BuiltNode node

fun converter :: "kind \<Rightarrow> json \<Rightarrow> error + built" where
  "converter OfDeclaration d = map_sum id BuiltProperty (to_property d)"
| "converter OfCharset d = map_sum id BuiltNode (to_charset d)"
| "converter OfKeyframe d = map_sum id BuiltKeyFrame (to_keyframe d)"
| "converter OfKeyframes d = map_sum id BuiltNode (to_keyframes d)"
| "converter OfMedia d = map_sum id BuiltNode (to_media_query d)"
| "converter OfRule d = map_sum id BuiltNode (to_rule d)"

text \<open>
  What a converter does with one of the fields it reads, as the error it raises there
  (none when it gets through): the lookup, then the conversion of the value where there
  is one (the comparison with \<^verbatim>\<open>declaration\<close> for the type of a declaration, the join
  of selectors and values, the conversion of each element of a sequence). The first
  error among the fields in a given order.
\<close>

definition outcome :: "error + 'a \<Rightarrow> error option" where
  "outcome r = (case r of Inl e \<Rightarrow> Some e | Inr _ \<Rightarrow> None)"

fun read_field :: "kind \<Rightarrow> string \<Rightarrow> json \<Rightarrow> error option" where
  "read_field OfDeclaration f d =
     (if f = ''type''
      then (case py_getitem d ''type'' of
              Inl e \<Rightarrow> Some e
            | Inr t \<Rightarrow> if t \<noteq> JStr ''declaration'' then Some (AssertionError (TypeField t)) else None)
      else outcome (py_getitem d f))"
| "read_field OfCharset f d = outcome (py_getitem d f)"
| "read_field OfKeyframe f d =
     (case py_getitem d f of
        Inl e \<Rightarrow> Some e
      | Inr v \<Rightarrow>
          if f = ''declarations''
          then (case py_iter v of Inl e \<Rightarrow> Some e | Inr ds \<Rightarrow> outcome (mapM to_property ds))
          else outcome (py_join '', '' v))"
| "read_field OfKeyframes f d =
     (case py_getitem d f of
        Inl e \<Rightarrow> Some e
      | Inr v \<Rightarrow>
          if f = ''keyframes''
          then (case py_iter v of Inl e \<Rightarrow> Some e | Inr ks \<Rightarrow> outcome (mapM to_keyframe ks))
          else None)"
| "read_field OfMedia f d =
     (case py_getitem d f of
        Inl e \<Rightarrow> Some e
      | Inr v \<Rightarrow>
          if f = ''rules''
          then (case py_iter v of Inl e \<Rightarrow> Some e | Inr ns \<Rightarrow> outcome (mapM generic_to_node ns))
          else None)"
| "read_field OfRule f d =
     (case py_getitem d f of
        Inl e \<Rightarrow> Some e
      | Inr v \<Rightarrow>
          if f = ''selectors''
          then outcome (py_join '', '' v)
          else (case py_iter v of Inl e \<Rightarrow> Some e | Inr ds \<Rightarrow> outcome (mapM to_property ds)))"

fun first_error :: "(string \<Rightarrow> error option) \<Rightarrow> string list \<Rightarrow> error option" where
  "first_error read [] = None"
| "first_error read (f # fs) =
     (case read f of Some e \<Rightarrow> Some e | None \<Rightarrow> first_error read fs)"

section \<open>Sample runs and records\<close>

text \<open>
  A formatter of values that are not texts, an output of the parser (the decoded tree of
  the style sheet \<^verbatim>\<open>a{}\<close>, one rule without declarations) and collaborators that
  return it, for evaluating the entry points.
\<close>

definition no_str :: "json \<Rightarrow> string" where
  "no_str v = []"

definition sample_sheet :: json where
  "sample_sheet =
     JObj [(''type'', JStr ''stylesheet''),
           (''stylesheet'', JObj
              [(''rules'', JArr
                  [JObj [(''type'', JStr ''rule''),
                         (''selectors'', JArr [JStr ''a'']),
                         (''declarations'', JArr []),
                         (''position'', JObj
                            [(''start'', JObj [(''line'', JNum 1), (''column'', JNum 1)]),
                             (''end'', JObj [(''line'', JNum 1), (''column'', JNum 4)])])]]),
               (''parsingErrors'', JArr [])])]"

definition sample_env :: env where
  "sample_env =
     \<lparr>require_nodeenv = None,
      communicate = (\<lambda>contents. Inr (0, [], [])),
      loads = (\<lambda>out. Inr sample_sheet)\<rparr>"

text \<open>
  Records for evaluating the converters: a rule with a key outside its schema, a comment
  as the parser leaves it among declarations, a media query without its \<^verbatim>\<open>media\<close> field
  whose rule has the key outside the schema, and a style sheet whose second node has an
  unregistered type.
\<close>

definition rule_with_unexpected_key :: "(string \<times> json) list" where
  "rule_with_unexpected_key =
     [(''type'', JStr ''rule''),
      (''selectors'', JArr [JStr ''a'']),
      (''declarations'', JArr []),
      (''unexpected'', JStr ''x'')]"

definition comment_in_declarations :: "(string \<times> json) list" where
  "comment_in_declarations = [(''type'', JStr ''comment''), (''comment'', JStr '' note '')]"

definition media_lacking_media :: "(string \<times> json) list" where
  "media_lacking_media =
     [(''type'', JStr ''media''), (''rules'', JArr [JObj rule_with_unexpected_key])]"



text \<open>
  Records with repeated and unsorted elements: a rule with selectors \<^verbatim>\<open>b, a, b\<close> and
  three declarations of which the first and the last are equal, a keyframe, a keyframes
  block with the same keyframe twice, and a media query around them.
\<close>

definition declaration_record :: "string \<Rightarrow> string \<Rightarrow> json" where
  "declaration_record p v =
     JObj [(''type'', JStr ''declaration''), (''property'', JStr p), (''value'', JStr v)]"

definition rule_b_a_b :: json where
  "rule_b_a_b =
     JObj [(''type'', JStr ''rule''),
           (''selectors'', JArr [JStr ''b'', JStr ''a'', JStr ''b'']),
           (''declarations'', JArr
              [declaration_record ''color'' ''red'',
               declaration_record ''color'' ''blue'',
               declaration_record ''color'' ''red''])]"

definition keyframe_to_from :: json where
  "keyframe_to_from =
     JObj [(''values'', JArr [JStr ''to'', JStr ''from'']),
           (''declarations'', JArr
              [declaration_record ''top'' ''1px'', declaration_record ''left'' ''0''])]"

definition keyframes_twice :: json where
  "keyframes_twice =
     JObj [(''type'', JStr ''keyframes''), (''name'', JStr ''spin''),
           (''keyframes'', JArr [keyframe_to_from, keyframe_to_from])]"

definition media_with_rules :: json where
  "media_with_rules =
     JObj [(''type'', JStr ''media''), (''media'', JStr ''print''),
           (''rules'', JArr [rule_b_a_b, keyframes_twice, rule_b_a_b])]"

text \<open>
  The nodes these records convert to, a style sheet of the rule followed by the media
  query with the text it renders to, and a style sheet of a charset, a rule with a
  property and a rule without any.
\<close>

definition node_b_a_b :: node where
  "node_b_a_b =
     Rule ''b, a, b''
       [Property (JStr ''color'') (JStr ''red''), Property (JStr ''color'') (JStr ''blue''),
        Property (JStr ''color'') (JStr ''red'')]"

definition node_keyframes_twice :: node where
  "node_keyframes_twice =
     KeyFrames (JStr []) (JStr ''spin'')
       [KeyFrame ''to, from''
          [Property (JStr ''top'') (JStr ''1px''), Property (JStr ''left'') (JStr ''0'')],
        KeyFrame ''to, from''
          [Property (JStr ''top'') (JStr ''1px''), Property (JStr ''left'') (JStr ''0'')]]"

definition ordered_sheet :: json where
  "ordered_sheet =
     JObj [(''type'', JStr ''stylesheet''),
           (''stylesheet'', JObj [(''rules'', JArr [rule_b_a_b, media_with_rules])])]"

definition ordered_env :: env where
  "ordered_env =
     \<lparr>require_nodeenv = None,
      communicate = (\<lambda>contents. Inr (0, [], [])),
      loads = (\<lambda>out. Inr ordered_sheet)\<rparr>"

definition ordered_text :: string where
  "ordered_text =
     ''b, a, b {\<newline>    color: red;\<newline>    color: blue;\<newline>    color: red;\<newline>}\<newline>@media print {\<newline>    b, a, b {\<newline>        color: red;\<newline>        color: blue;\<newline>        color: red;\<newline>    }\<newline>    @keyframes spin {\<newline>        to, from {\<newline>            top: 1px;\<newline>            left: 0;\<newline>        }\<newline>        to, from {\<newline>            top: 1px;\<newline>            left: 0;\<newline>        }\<newline>    }\<newline>    b, a, b {\<newline>        color: red;\<newline>        color: blue;\<newline>        color: red;\<newline>    }\<newline>}\<newline>''"

definition three_node_sheet :: json where
  "three_node_sheet =
     JObj [(''type'', JStr ''stylesheet''),
           (''stylesheet'', JObj
              [(''rules'', JArr
                  [JObj [(''type'', JStr ''charset''), (''charset'', JStr ''utf-8'')],
                   JObj [(''type'', JStr ''rule''),
                         (''selectors'', JArr [JStr ''b'']),
                         (''declarations'', JArr [declaration_record ''color'' ''red''])],
                   JObj [(''type'', JStr ''rule''),
                         (''selectors'', JArr [JStr ''a'']),
                         (''declarations'', JArr [])]])])]"

definition three_node_env :: env where
  "three_node_env =
     \<lparr>require_nodeenv = None,
      communicate = (\<lambda>contents. Inr (0, [], [])),
      loads = (\<lambda>out. Inr three_node_sheet)\<rparr>"

section \<open>Rendering of single nodes\<close>

text \<open>
  Claim C7. A Charset node renders to the empty text when \<^verbatim>\<open>ignore_charset\<close> is true,
  whatever it holds; when the option is false it renders to \<^verbatim>\<open>@charset <value>;\<close> and a
  newline, the stored text inserted unchanged (and, for a stored value of any kind, what
  \<^verbatim>\<open>format\<close> makes of it).
\<close>

theorem charset_to_text:
  "to_text py_str \<lparr>ignore_charset = True, ignore_empty_rules = ier\<rparr> (Charset c) = [] \<and>
   to_text py_str \<lparr>ignore_charset = False, ignore_empty_rules = ier\<rparr> (Charset (JStr v)) =
     ''@charset '' @ v @ '';\<newline>'' \<and>
   to_text py_str \<lparr>ignore_charset = False, ignore_empty_rules = ier\<rparr> (Charset c) =
     ''@charset '' @ format_field py_str c @ '';\<newline>''"
  by simp

text \<open>
  Claim C10. Indenting the empty text gives a single newline, so a media query without
  rules and a keyframes block without keyframes render with one blank line between the
  braces.
\<close>

theorem empty_blocks_blank_line:
  "indent [] = ''\<newline>'' \<and>
   to_text py_str kw (MediaQuery (JStr media) []) =
     ''@media '' @ media @ '' {\<newline>\<newline>}\<newline>'' \<and>
   to_text py_str kw (KeyFrames (JStr vendor) (JStr name) []) =
     ''@'' @ vendor @ ''keyframes '' @ name @ '' {\<newline>\<newline>}\<newline>''"
  by (simp add: indent_def splitlines_def)

text \<open>
  Claim C4. The keyframes record named \<^verbatim>\<open>spin\<close>, which has no \<^verbatim>\<open>vendor\<close> key, is built
  into a KeyFrames node whose vendor is the empty text, and that node renders to the
  block with the two frames indented once and the declaration indented twice.
\<close>

theorem spin_keyframes:
  "generic_to_node
     (JObj [(''type'', JStr ''keyframes''), (''name'', JStr ''spin''),
            (''keyframes'', JArr
               [JObj [(''values'', JArr [JStr ''0%'']), (''declarations'', JArr [])],
                JObj [(''values'', JArr [JStr ''100%'']),
                      (''declarations'', JArr
                         [JObj [(''type'', JStr ''declaration''),
                                (''property'', JStr ''transform''),
                                (''value'', JStr ''rotate(360deg)'')]])]])]) =
   Inr (KeyFrames (JStr []) (JStr ''spin'')
          [KeyFrame ''0%'' [],
           KeyFrame ''100%'' [Property (JStr ''transform'') (JStr ''rotate(360deg)'')]]) \<and>
   to_text py_str kw
     (KeyFrames (JStr []) (JStr ''spin'')
          [KeyFrame ''0%'' [],
           KeyFrame ''100%'' [Property (JStr ''transform'') (JStr ''rotate(360deg)'')]]) =
   ''@keyframes spin {\<newline>    0% {\<newline>    }\<newline>    100% {\<newline>        transform: rotate(360deg);\<newline>    }\<newline>}\<newline>''"
  by (simp add: to_keyframes_def to_keyframe_def to_property_def check_keys_def py_set_def
      py_join_def indent_def splitlines_def LF_def CR_def is_linebreak_def)

section \<open>Indentation\<close>

text \<open>
  Splitting undoes joining with newlines: a line without boundary, followed by a newline,
  is read back as that line.
\<close>

lemma is_linebreak_LF: "is_linebreak LF"
  by (simp add: is_linebreak_def LF_def)

lemma LF_not_CR: "LF \<noteq> CR"
  by (simp add: LF_def CR_def)

lemma is_linebreak_CR: "is_linebreak CR"
  by (simp add: is_linebreak_def CR_def)

lemma splitlines_from_line:
  "no_linebreak l \<Longrightarrow> splitlines_from acc (l @ LF # rest) = (acc @ l) # splitlines_from [] rest"
proof (induction l arbitrary: acc)
  case Nil
  then show ?case by (simp add: is_linebreak_LF LF_not_CR)
next
  case (Cons c l)
  then have c: "\<not> is_linebreak c" and l: "no_linebreak l"
    by (simp_all add: no_linebreak_def)
  from c have "c \<noteq> CR" using is_linebreak_CR by auto
  with c Cons.IH [OF l, of "acc @ [c]"] show ?case by simp
qed

lemma splitlines_from_last_line:
  "no_linebreak l \<Longrightarrow> splitlines_from acc (l @ [LF]) = [acc @ l]"
  using splitlines_from_line [of l acc "[]"] by simp

lemma splitlines_join:
  "ls \<noteq> [] \<Longrightarrow> list_all no_linebreak ls \<Longrightarrow>
   splitlines_from [] (str_join [LF] ls @ [LF]) = ls"
proof (induction "[LF]" ls rule: str_join.induct)
  case 1
  then show ?case by simp
next
  case (2 x)
  then show ?case by (simp add: splitlines_from_last_line)
next
  case (3 x y ys)
  then have "splitlines_from [] (str_join [LF] (y # ys) @ [LF]) = y # ys" by simp
  moreover have "no_linebreak x" using 3 by simp
  ultimately show ?case
    using splitlines_from_line [of x "[]" "str_join [LF] (y # ys) @ [LF]"] by simp
qed

lemma splitlines_from_no_linebreak:
  "no_linebreak acc \<Longrightarrow> list_all no_linebreak (splitlines_from acc s)"
proof (induction acc s rule: splitlines_from.induct)
  case (1 line)
  then show ?case by simp
next
  case (2 line c cs)
  have e: "no_linebreak []" by (simp add: no_linebreak_def)
  consider (crlf) "c = CR \<and> cs \<noteq> [] \<and> hd cs = LF"
    | (break) "\<not> (c = CR \<and> cs \<noteq> [] \<and> hd cs = LF)" "is_linebreak c"
    | (plain) "\<not> (c = CR \<and> cs \<noteq> [] \<and> hd cs = LF)" "\<not> is_linebreak c"
    by blast
  then show ?case
  proof cases
    case crlf
    with 2(1) [OF crlf e] 2(4) show ?thesis by simp
  next
    case break
    with 2(2) [OF break e] 2(4) show ?thesis by auto
  next
    case plain
    from plain(2) 2(4) have "no_linebreak (line @ [c])" by (simp add: no_linebreak_def)
    with 2(3) [OF plain] plain show ?thesis by auto
  qed
qed

lemma splitlines_from_nonempty:
  "acc \<noteq> [] \<or> s \<noteq> [] \<Longrightarrow> splitlines_from acc s \<noteq> []"
  by (induction acc s rule: splitlines_from.induct) auto

lemma no_linebreak_pad: "no_linebreak l \<Longrightarrow> no_linebreak (''    '' @ l)"
  by (simp add: no_linebreak_def is_linebreak_def)

lemma last_str_join:
  "ls \<noteq> [] \<Longrightarrow> last ls \<noteq> [] \<Longrightarrow> str_join sep ls \<noteq> [] \<and> last (str_join sep ls) = last (last ls)"
  by (induction sep ls rule: str_join.induct) auto

lemma indent_splitlines:
  assumes "text \<noteq> []"
  shows "splitlines (indent text) = map (\<lambda>line. ''    '' @ line) (splitlines text)"
proof -
  let ?ls = "map (\<lambda>line. ''    '' @ line) (splitlines text)"
  have "list_all no_linebreak (splitlines text)"
    unfolding splitlines_def by (rule splitlines_from_no_linebreak) (simp add: no_linebreak_def)
  then have "list_all no_linebreak ?ls"
    by (simp add: list_all_iff no_linebreak_pad del: append.simps)
  moreover have "?ls \<noteq> []"
    using assms splitlines_from_nonempty [of "[]" "text"] by (simp add: splitlines_def)
  ultimately have "splitlines_from [] (str_join [LF] ?ls @ [LF]) = ?ls"
    by (rule splitlines_join [rotated])
  then show ?thesis
    by (simp add: indent_def splitlines_def LF_def)
qed

lemma indent_body:
  assumes "text \<noteq> []"
  shows "\<exists>body. indent text = body @ ''\<newline>'' \<and> body \<noteq> [] \<and> \<not> is_linebreak (last body)"
proof -
  let ?ls = "map (\<lambda>line. ''    '' @ line) (splitlines text)"
  let ?body = "str_join ''\<newline>'' ?ls"
  have nb: "list_all no_linebreak (splitlines text)"
    unfolding splitlines_def by (rule splitlines_from_no_linebreak) (simp add: no_linebreak_def)
  have ne: "splitlines text \<noteq> []"
    using assms splitlines_from_nonempty [of "[]" "text"] by (simp add: splitlines_def)
  then have ne': "?ls \<noteq> []" by simp
  have lastl: "last ?ls = ''    '' @ last (splitlines text)"
    using ne by (simp add: last_map del: append.simps)
  have "no_linebreak (last (splitlines text))"
    using nb ne by (simp add: list_all_iff)
  then have nl: "no_linebreak (last ?ls)"
    unfolding lastl by (rule no_linebreak_pad)
  have lne: "last ?ls \<noteq> []" unfolding lastl by simp
  from last_str_join [OF ne' lne, of "''\<newline>''"]
  have b: "?body \<noteq> []" and l: "last ?body = last (last ?ls)" by simp_all
  have "\<not> is_linebreak (last (last ?ls))"
    using nl lne by (simp add: no_linebreak_def list_all_iff del: append.simps)
  with b l have "indent text = ?body @ ''\<newline>'' \<and> ?body \<noteq> [] \<and> \<not> is_linebreak (last ?body)"
    by (simp add: indent_def del: append.simps)
  then show ?thesis by blast
qed

text \<open>
  Claim C2. For every non-empty text, so for every text that ends in a newline, the
  indented text ends in one newline that follows a character which is no line boundary
  (the output has exactly one trailing newline), and splitting the indented text gives
  the lines of the original text, each behind four spaces: the same number of lines, no
  blank line added at the end and none lost.
\<close>

theorem indent_one_trailing_newline:
  "text \<noteq> [] \<Longrightarrow>
   (\<exists>body. indent text = body @ ''\<newline>'' \<and> body \<noteq> [] \<and> \<not> is_linebreak (last body)) \<and>
   splitlines (indent text) = map (\<lambda>line. ''    '' @ line) (splitlines text) \<and>
   length (splitlines (indent text)) = length (splitlines text)"
  using indent_body [of "text"] indent_splitlines [of "text"] by simp

theorem indent_one_trailing_newline_witness:
  "''a {\<newline>}\<newline>'' \<noteq> [] \<and>
   indent ''a {\<newline>}\<newline>'' = ''    a {\<newline>    }\<newline>'' \<and>
   splitlines (indent ''a {\<newline>}\<newline>'') = [''    a {'', ''    }''] \<and>
   length (splitlines (indent ''a {\<newline>}\<newline>'')) = length (splitlines ''a {\<newline>}\<newline>'')"
  using indent_one_trailing_newline [of "''a {\<newline>}\<newline>''"]
  by (simp add: indent_def splitlines_def LF_def CR_def is_linebreak_def)

section \<open>Rules without properties\<close>






section \<open>The conversion of sequences\<close>

text \<open>
  A sequence is converted when each of its elements is, one node for each record and in
  the order of the records.
\<close>

lemma mapM_Inr_D: "mapM f xs = Inr ys \<Longrightarrow> list_all2 (\<lambda>x y. f x = Inr y) xs ys"
  by (induction xs arbitrary: ys) (auto split: sum.splits)

lemma mapM_Inr_I: "list_all2 (\<lambda>x y. f x = Inr y) xs ys \<Longrightarrow> mapM f xs = Inr ys"
  by (induction xs ys rule: list_all2_induct) auto

lemma mapM_Inr_iff: "mapM f xs = Inr ys \<longleftrightarrow> list_all2 (\<lambda>x y. f x = Inr y) xs ys"
  using mapM_Inr_D mapM_Inr_I by blast

section \<open>The entry point\<close>

lemma to_property_declaration_record:
  "to_property (declaration_record p v) = Inr (Property (JStr p) (JStr v))"
  by (simp add: declaration_record_def to_property_def check_keys_def py_set_def py_getitem.simps)

text \<open>
  Claim C1, as stated, fails: \<^verbatim>\<open>format_css\<close> strips nothing. On the style sheet
  \<^verbatim>\<open>a{}\<close> it returns the rule's text with its final newline, which is not what
  \<^verbatim>\<open>rstrip\<close> leaves of it.
\<close>

theorem format_css_not_stripped:
  "format_css no_str sample_env ''a{}'' [] = Inr ''a {\<newline>}\<newline>'' \<and>
   rstrip ''a {\<newline>}\<newline>'' = ''a {\<newline>}'' \<and>
   format_css no_str sample_env ''a{}'' [] \<noteq> Inr (rstrip ''a {\<newline>}\<newline>'')"
  by (simp add: format_css_def sample_env_def sample_sheet_def to_rule_def check_keys_def
      py_set_def py_join_def rstrip_def is_space_def)

text \<open>
  Claim C1, amended. When the collaborators succeed and every top-level record converts,
  \<^verbatim>\<open>format_css\<close> returns the concatenation of the texts of the top-level nodes, in
  the order of the records and under the two options given (false by default), with
  nothing stripped. Trailing whitespace is stripped once, from the end of the whole
  text, by the command-line wrapper \<^verbatim>\<open>main\<close> before it prints it. On the style
  sheet of a charset and two rules the three texts follow each other with their newlines
  and only \<^verbatim>\<open>main\<close> removes the last one.
\<close>

theorem format_css_concatenates:
  assumes "require_nodeenv env = None"
    and "communicate env contents = Inr (0, out, err)"
    and "loads env out = Inr decoded"
    and "py_getitem decoded ''stylesheet'' = Inr sheet"
    and "py_getitem sheet ''rules'' = Inr rs"
    and "py_iter rs = Inr ds"
    and "list_all2 (\<lambda>d n. generic_to_node d = Inr n) ds nodes"
  shows "format_css py_str env contents [(''ignore_charset'', ic), (''ignore_empty_rules'', ier)] =
           Inr (concat (map (to_text py_str \<lparr>ignore_charset = ic, ignore_empty_rules = ier\<rparr>) nodes)) \<and>
         format_css py_str env contents [] =
           Inr (concat (map (to_text py_str \<lparr>ignore_charset = False, ignore_empty_rules = False\<rparr>) nodes)) \<and>
         main py_str env contents =
           Inr (rstrip (concat (map (to_text py_str \<lparr>ignore_charset = False, ignore_empty_rules = False\<rparr>) nodes)) @ ''\<newline>'')"
proof -
  from assms(7) have "mapM generic_to_node ds = Inr nodes"
    by (simp add: mapM_Inr_iff)
  with assms(1-6) show ?thesis
    by (simp add: format_css_def main_def)
qed

theorem format_css_concatenates_witness:
  "require_nodeenv three_node_env = None \<and>
   communicate three_node_env ''@charset utf-8;b{color:red}a{}'' = Inr (0, [], []) \<and>
   loads three_node_env [] = Inr three_node_sheet \<and>
   format_css no_str three_node_env ''@charset utf-8;b{color:red}a{}''
       [(''ignore_charset'', True), (''ignore_empty_rules'', False)] =
     Inr ''b {\<newline>    color: red;\<newline>}\<newline>a {\<newline>}\<newline>'' \<and>
   format_css no_str three_node_env ''@charset utf-8;b{color:red}a{}'' [] =
     Inr ''@charset utf-8;\<newline>b {\<newline>    color: red;\<newline>}\<newline>a {\<newline>}\<newline>'' \<and>
   main no_str three_node_env ''@charset utf-8;b{color:red}a{}'' =
     Inr (rstrip ''@charset utf-8;\<newline>b {\<newline>    color: red;\<newline>}\<newline>a {\<newline>}\<newline>'' @ ''\<newline>'') \<and>
   rstrip ''@charset utf-8;\<newline>b {\<newline>    color: red;\<newline>}\<newline>a {\<newline>}\<newline>'' =
     ''@charset utf-8;\<newline>b {\<newline>    color: red;\<newline>}\<newline>a {\<newline>}''"
proof -
  let ?c = "JObj [(''type'', JStr ''charset''), (''charset'', JStr ''utf-8'')]"
  let ?b = "JObj [(''type'', JStr ''rule''), (''selectors'', JArr [JStr ''b'']),
                  (''declarations'', JArr [declaration_record ''color'' ''red''])]"
  let ?a = "JObj [(''type'', JStr ''rule''), (''selectors'', JArr [JStr ''a'']),
                  (''declarations'', JArr [])]"
  let ?sheet = "JObj [(''rules'', JArr [?c, ?b, ?a])]"
  let ?nodes = "[Charset (JStr ''utf-8''),
                 Rule ''b'' [Property (JStr ''color'') (JStr ''red'')], Rule ''a'' []]"
  have 1: "require_nodeenv three_node_env = None" by (simp add: three_node_env_def)
  have 2: "communicate three_node_env ''@charset utf-8;b{color:red}a{}'' = Inr (0, [], [])"
    by (simp add: three_node_env_def)
  have 3: "loads three_node_env [] = Inr three_node_sheet" by (simp add: three_node_env_def)
  have 4: "py_getitem three_node_sheet ''stylesheet'' = Inr ?sheet"
    by (simp add: three_node_sheet_def py_getitem.simps)
  have 5: "py_getitem ?sheet ''rules'' = Inr (JArr [?c, ?b, ?a])" by (simp add: py_getitem.simps)
  have 6: "py_iter (JArr [?c, ?b, ?a]) = Inr [?c, ?b, ?a]" by simp
  have 7: "list_all2 (\<lambda>d n. generic_to_node d = Inr n) [?c, ?b, ?a] ?nodes"
    by (simp add: generic_to_node.simps to_rule_def to_charset_def check_keys_def py_set_def
        py_join_def py_getitem.simps to_property_declaration_record)
  have 8: "rstrip ''@charset utf-8;\<newline>b {\<newline>    color: red;\<newline>}\<newline>a {\<newline>}\<newline>'' =
     ''@charset utf-8;\<newline>b {\<newline>    color: red;\<newline>}\<newline>a {\<newline>}''"
    by (simp add: rstrip_def is_space_def)
  from format_css_concatenates [OF 1 2 3 4 5 6 7, of no_str True False] 1 2 3 8
  show ?thesis by simp
qed

section \<open>Schema violations\<close>

text \<open>
  On a dict, \<^verbatim>\<open>_check_keys\<close> passes exactly when the keys are within the allowed keys,
  and the pair it raises otherwise is the pair of the two sets. No error of any converter
  is a pair of key sets of which the first is within the second.
\<close>

lemma py_set_JObj: "py_set (JObj kvs) = Inr (key_set kvs)"
proof -
  have "list_all hashable (map (\<lambda>kv. JStr (fst kv)) kvs)"
    by (induction kvs) simp_all
  moreover have "map py_key (map (\<lambda>kv. JStr (fst kv)) kvs) = map (\<lambda>kv. JStr (fst kv)) kvs"
    by (induction kvs) simp_all
  ultimately show ?thesis
    by (simp add: py_set_def key_set_def del: map_map)
qed

lemma check_keys_JObj:
  "check_keys (JObj kvs) keys =
     (if key_set kvs \<subseteq> allowed_keys keys then Inr ()
      else Inl (AssertionError (KeySets (key_set kvs) (allowed_keys keys))))"
  by (simp add: check_keys_def py_set_JObj allowed_keys_def)

lemma py_set_proper: "py_set d = Inl e \<Longrightarrow> proper_error e"
  by (cases d) (auto simp: py_set_def split: if_splits)

lemma check_keys_proper: "check_keys d keys = Inl e \<Longrightarrow> proper_error e"
  by (auto simp: check_keys_def Let_def split: sum.splits if_splits dest: py_set_proper)

lemma py_getitem_proper: "py_getitem d k = Inl e \<Longrightarrow> proper_error e"
  by (cases d) (auto split: option.splits)

lemma py_iter_proper: "py_iter d = Inl e \<Longrightarrow> proper_error e"
  by (cases d) auto

lemma py_join_proper: "py_join sep d = Inl e \<Longrightarrow> proper_error e"
  by (auto simp: py_join_def split: sum.splits if_splits dest: py_iter_proper)

lemma py_get_proper: "py_get d k v = Inl e \<Longrightarrow> proper_error e"
  by (cases d) (auto split: option.splits)

lemma mapM_Inl_D: "mapM f xs = Inl e \<Longrightarrow> \<exists>x\<in>set xs. f x = Inl e"
  by (induction xs) (auto split: sum.splits)

lemma mapM_proper:
  "(\<And>x e. x \<in> set xs \<Longrightarrow> f x = Inl e \<Longrightarrow> proper_error e) \<Longrightarrow> mapM f xs = Inl e \<Longrightarrow> proper_error e"
  by (blast dest: mapM_Inl_D)

lemma to_property_proper: "to_property d = Inl e \<Longrightarrow> proper_error e"
  by (auto simp: to_property_def split: sum.splits if_splits
      dest: py_getitem_proper check_keys_proper)

lemma to_charset_proper: "to_charset d = Inl e \<Longrightarrow> proper_error e"
  by (auto simp: to_charset_def split: sum.splits dest: py_getitem_proper check_keys_proper)

lemma to_keyframe_proper: "to_keyframe d = Inl e \<Longrightarrow> proper_error e"
  by (auto simp: to_keyframe_def split: sum.splits
      dest: py_getitem_proper check_keys_proper py_iter_proper py_join_proper
      intro: mapM_proper [of _ to_property] to_property_proper)

lemma to_keyframes_proper: "to_keyframes d = Inl e \<Longrightarrow> proper_error e"
  by (auto simp: to_keyframes_def split: sum.splits
      dest: py_getitem_proper check_keys_proper py_iter_proper py_get_proper
      intro: mapM_proper [of _ to_keyframe] to_keyframe_proper)

lemma to_rule_proper: "to_rule d = Inl e \<Longrightarrow> proper_error e"
  by (auto simp: to_rule_def split: sum.splits
      dest: py_getitem_proper check_keys_proper py_iter_proper py_join_proper
      intro: mapM_proper [of _ to_property] to_property_proper)

declare generic_to_node.simps [simp del] to_media_query.simps [simp del]

lemma generic_to_node_proper:
  "generic_to_node d = Inl e \<Longrightarrow> proper_error e"
  and to_media_query_proper: "to_media_query d' = Inl e' \<Longrightarrow> proper_error e'"
proof (induction d and d' arbitrary: e and e' rule: generic_to_node_to_media_query.induct)
  case (1 node_dict)
  from "1.prems" show ?case
    by (subst (asm) generic_to_node.simps)
      (auto split: sum.splits if_splits
        dest: py_getitem_proper to_charset_proper to_keyframes_proper to_rule_proper "1.IH")
next
  case (2 media_query_dict)
  from "2.prems" show ?case
    by (subst (asm) to_media_query.simps)
      (auto split: sum.splits
        dest: py_getitem_proper check_keys_proper py_iter_proper
        intro: mapM_proper [of _ generic_to_node] "2.IH")
qed

lemma map_sum_Inl_iff: "map_sum id g x = Inl e \<longleftrightarrow> x = Inl e"
  by (cases x) simp_all

lemma converter_proper: "converter k d = Inl e \<Longrightarrow> proper_error e"
  by (cases k)
    (auto simp: map_sum_Inl_iff
      dest: to_property_proper to_charset_proper to_keyframe_proper to_keyframes_proper
        to_media_query_proper to_rule_proper)

lemma converter_violation:
  assumes "\<not> key_set kvs \<subseteq> allowed_keys (declared_fields k)"
    and "k \<noteq> OfDeclaration \<or> map_of kvs ''type'' = Some (JStr ''declaration'')"
  shows "converter k (JObj kvs) =
         Inl (AssertionError (KeySets (key_set kvs) (allowed_keys (declared_fields k))))"
proof (cases k)
  case OfDeclaration
  with assms show ?thesis by (simp add: to_property_def check_keys_JObj)
next
  case OfCharset
  with assms show ?thesis by (simp add: to_charset_def check_keys_JObj)
next
  case OfKeyframe
  with assms show ?thesis by (simp add: to_keyframe_def check_keys_JObj)
next
  case OfKeyframes
  with assms show ?thesis by (simp add: to_keyframes_def check_keys_JObj)
next
  case OfMedia
  with assms show ?thesis by (simp add: to_media_query.simps check_keys_JObj)
next
  case OfRule
  with assms show ?thesis by (simp add: to_rule_def check_keys_JObj)
qed

lemma to_property_TypeField_iff:
  "to_property (JObj kvs) = Inl (AssertionError (TypeField t)) \<longleftrightarrow>
   map_of kvs ''type'' = Some t \<and> t \<noteq> JStr ''declaration''"
  by (auto simp: to_property_def check_keys_JObj split: option.splits sum.splits)

lemma to_property_no_type:
  "map_of kvs ''type'' = None \<Longrightarrow> to_property (JObj kvs) = Inl (KeyError (JStr ''type''))"
  by (simp add: to_property_def)

text \<open>
  Claim C5, as stated, fails in what the failure carries: a declaration record whose
  \<^verbatim>\<open>type\<close> is not \<^verbatim>\<open>declaration\<close> (here a comment, whose keys are not within the
  allowed keys either) fails with the assertion on the type, which carries the value of
  the \<^verbatim>\<open>type\<close> field and no key set.
\<close>

theorem type_mismatch_carries_type:
  "\<not> key_set comment_in_declarations \<subseteq> allowed_keys [''property'', ''value''] \<and>
   to_property (JObj comment_in_declarations) = Inl (AssertionError (TypeField (JStr ''comment''))) \<and>
   to_property (JObj comment_in_declarations) \<noteq>
     Inl (AssertionError (KeySets (key_set comment_in_declarations)
                                  (allowed_keys [''property'', ''value''])))"
  by (simp add: comment_in_declarations_def key_set_def allowed_keys_def to_property_def
      py_getitem.simps)

text \<open>
  Claim C5, amended. For every record and every kind of node, the conversion fails with
  the assertion carrying the record's key set and the allowed key set exactly when the
  key set is not within the declared fields plus \<^verbatim>\<open>position\<close> and \<^verbatim>\<open>type\<close>; for a
  declaration record this holds when its \<^verbatim>\<open>type\<close> is \<^verbatim>\<open>declaration\<close>. A declaration
  record fails with the assertion carrying the value of its \<^verbatim>\<open>type\<close> field exactly
  when it has that field and the value is not \<^verbatim>\<open>declaration\<close>, and with the key error
  for \<^verbatim>\<open>type\<close> when it has no such field.
\<close>

theorem schema_violation_exactly:
  "(k \<noteq> OfDeclaration \<or> map_of kvs ''type'' = Some (JStr ''declaration'') \<longrightarrow>
      (converter k (JObj kvs) =
         Inl (AssertionError (KeySets (key_set kvs) (allowed_keys (declared_fields k)))) \<longleftrightarrow>
       \<not> key_set kvs \<subseteq> allowed_keys (declared_fields k))) \<and>
   (to_property (JObj kvs) = Inl (AssertionError (TypeField t)) \<longleftrightarrow>
      map_of kvs ''type'' = Some t \<and> t \<noteq> JStr ''declaration'') \<and>
   (map_of kvs ''type'' = None \<longrightarrow> to_property (JObj kvs) = Inl (KeyError (JStr ''type'')))"
  using converter_violation [of kvs k] converter_proper [of k "JObj kvs"]
    to_property_TypeField_iff [of kvs t] to_property_no_type [of kvs]
  by fastforce

theorem schema_violation_exactly_witness:
  "\<not> key_set rule_with_unexpected_key \<subseteq> allowed_keys [''selectors'', ''declarations''] \<and>
   to_rule (JObj rule_with_unexpected_key) =
     Inl (AssertionError (KeySets (key_set rule_with_unexpected_key)
                                  (allowed_keys [''selectors'', ''declarations'']))) \<and>
   map_of comment_in_declarations ''type'' = Some (JStr ''comment'') \<and>
   to_property (JObj comment_in_declarations) = Inl (AssertionError (TypeField (JStr ''comment''))) \<and>
   map_of [(''property'', JStr ''color''), (''value'', JStr ''red'')] ''type'' = None \<and>
   to_property (JObj [(''property'', JStr ''color''), (''value'', JStr ''red'')]) =
     Inl (KeyError (JStr ''type''))"
proof -
  have 1: "\<not> key_set rule_with_unexpected_key \<subseteq> allowed_keys [''selectors'', ''declarations'']"
    by (simp add: rule_with_unexpected_key_def key_set_def allowed_keys_def)
  have 2: "map_of comment_in_declarations ''type'' = Some (JStr ''comment'')"
    by (simp add: comment_in_declarations_def)
  have 3: "map_of [(''property'', JStr ''color''), (''value'', JStr ''red'')] ''type'' = None"
    by simp
  from schema_violation_exactly [of OfRule rule_with_unexpected_key] 1
  have a: "to_rule (JObj rule_with_unexpected_key) =
     Inl (AssertionError (KeySets (key_set rule_with_unexpected_key)
                                  (allowed_keys [''selectors'', ''declarations''])))"
    by (simp add: map_sum_Inl_iff)
  from schema_violation_exactly [of OfDeclaration comment_in_declarations "JStr ''comment''"] 2
  have b: "to_property (JObj comment_in_declarations) =
     Inl (AssertionError (TypeField (JStr ''comment'')))"
    by simp
  from schema_violation_exactly
    [of OfDeclaration "[(''property'', JStr ''color''), (''value'', JStr ''red'')]"] 3
  have c: "to_property (JObj [(''property'', JStr ''color''), (''value'', JStr ''red'')]) =
     Inl (KeyError (JStr ''type''))"
    by blast
  from 1 2 3 a b c show ?thesis by blast
qed

section \<open>Missing fields\<close>

text \<open>
  A field that is not the one appended is read from the longer dict as from the shorter
  one, and the key check of the longer dict implies that of the shorter one.
\<close>

lemma py_getitem_snoc_other:
  "g \<noteq> f \<Longrightarrow> py_getitem (JObj (kvs @ [(f, v)])) g = py_getitem (JObj kvs) g"
  by (simp add: map_add_def split: option.splits)

lemma py_get_snoc_other:
  "g \<noteq> f \<Longrightarrow> py_get (JObj (kvs @ [(f, v)])) g dflt = py_get (JObj kvs) g dflt"
  by (simp add: map_add_def split: option.splits)

lemma py_getitem_None:
  "map_of kvs f = None \<Longrightarrow> py_getitem (JObj kvs) f = Inl (KeyError (JStr f))"
  by simp

lemma key_set_snoc: "key_set (kvs @ [(f, v)]) = insert (JStr f) (key_set kvs)"
  by (simp add: key_set_def)

lemma check_keys_snoc:
  "check_keys (JObj (kvs @ [(f, v)])) keys = Inr u \<Longrightarrow> check_keys (JObj kvs) keys = Inr ()"
  by (simp add: check_keys_JObj key_set_snoc split: if_splits)

lemma py_getitem_Inr_D: "py_getitem (JObj kvs) f = Inr v \<Longrightarrow> map_of kvs f = Some v"
  by (simp split: option.splits)

declare py_getitem.simps [simp del] py_get.simps [simp del]

text \<open>What a successful conversion has read and built.\<close>

lemma to_property_Inr_D:
  "to_property d = Inr b \<Longrightarrow>
   \<exists>p v. py_getitem d ''type'' = Inr (JStr ''declaration'') \<and>
     check_keys d [''property'', ''value''] = Inr () \<and>
     py_getitem d ''property'' = Inr p \<and> py_getitem d ''value'' = Inr v \<and> b = Property p v"
  by (auto simp: to_property_def split: sum.splits if_splits)

lemma to_charset_Inr_D:
  "to_charset d = Inr b \<Longrightarrow>
   \<exists>c. check_keys d [''charset''] = Inr () \<and> py_getitem d ''charset'' = Inr c \<and> b = Charset c"
  by (auto simp: to_charset_def split: sum.splits)

lemma to_keyframe_Inr_D:
  "to_keyframe d = Inr b \<Longrightarrow>
   \<exists>decls ds ps vals s. check_keys d [''declarations'', ''values''] = Inr () \<and>
     py_getitem d ''declarations'' = Inr decls \<and> py_iter decls = Inr ds \<and>
     mapM to_property ds = Inr ps \<and>
     py_getitem d ''values'' = Inr vals \<and> py_join '', '' vals = Inr s \<and> b = KeyFrame s ps"
  by (auto simp: to_keyframe_def split: sum.splits)

lemma to_keyframes_Inr_D:
  "to_keyframes d = Inr b \<Longrightarrow>
   \<exists>kfs ks keyframes vendor name. check_keys d [''vendor'', ''name'', ''keyframes''] = Inr () \<and>
     py_getitem d ''keyframes'' = Inr kfs \<and> py_iter kfs = Inr ks \<and>
     mapM to_keyframe ks = Inr keyframes \<and>
     py_get d ''vendor'' (JStr []) = Inr vendor \<and> py_getitem d ''name'' = Inr name \<and>
     b = KeyFrames vendor name keyframes"
  by (auto simp: to_keyframes_def split: sum.splits)

lemma to_media_query_Inr_D:
  "to_media_query d = Inr b \<Longrightarrow>
   \<exists>rs ns rules media. check_keys d [''media'', ''rules''] = Inr () \<and>
     py_getitem d ''rules'' = Inr rs \<and> py_iter rs = Inr ns \<and>
     mapM generic_to_node ns = Inr rules \<and>
     py_getitem d ''media'' = Inr media \<and> b = MediaQuery media rules"
  by (subst (asm) to_media_query.simps) (auto split: sum.splits)

lemma to_rule_Inr_D:
  "to_rule d = Inr b \<Longrightarrow>
   \<exists>sels s decls ds ps. check_keys d [''selectors'', ''declarations''] = Inr () \<and>
     py_getitem d ''selectors'' = Inr sels \<and> py_join '', '' sels = Inr s \<and>
     py_getitem d ''declarations'' = Inr decls \<and> py_iter decls = Inr ds \<and>
     mapM to_property ds = Inr ps \<and> b = Rule s ps"
  by (auto simp: to_rule_def split: sum.splits)

text \<open>
  A record that converts once a field is appended fails, without it, with the key error
  for that field.
\<close>

lemma to_property_lacks:
  assumes "map_of kvs f = None" and "f \<in> set (required_fields OfDeclaration)"
    and "to_property (JObj (kvs @ [(f, v)])) = Inr b"
  shows "to_property (JObj kvs) = Inl (KeyError (JStr f))"
proof -
  from to_property_Inr_D [OF assms(3)] obtain p w where
    t: "py_getitem (JObj (kvs @ [(f, v)])) ''type'' = Inr (JStr ''declaration'')" and
    c: "check_keys (JObj kvs) [''property'', ''value''] = Inr ()" and
    p: "py_getitem (JObj (kvs @ [(f, v)])) ''property'' = Inr p"
    by (blast dest: check_keys_snoc)
  from assms(2) consider "f = ''type''" | "f = ''property''" | "f = ''value''" by auto
  then show ?thesis
  proof cases
    case 1
    with assms(1) show ?thesis by (simp add: to_property_def py_getitem_None)
  next
    case 2
    with assms(1) t c show ?thesis
      by (simp add: to_property_def py_getitem_None py_getitem_snoc_other)
  next
    case 3
    with assms(1) t c p show ?thesis
      by (simp add: to_property_def py_getitem_None py_getitem_snoc_other)
  qed
qed

lemma to_charset_lacks:
  assumes "map_of kvs f = None" and "f \<in> set (required_fields OfCharset)"
    and "to_charset (JObj (kvs @ [(f, v)])) = Inr b"
  shows "to_charset (JObj kvs) = Inl (KeyError (JStr f))"
proof -
  from to_charset_Inr_D [OF assms(3)]
  have "check_keys (JObj kvs) [''charset''] = Inr ()"
    by (blast dest: check_keys_snoc)
  with assms(1,2) show ?thesis
    by (simp add: to_charset_def py_getitem_None)
qed

lemma to_keyframe_lacks:
  assumes "map_of kvs f = None" and "f \<in> set (required_fields OfKeyframe)"
    and "to_keyframe (JObj (kvs @ [(f, v)])) = Inr b"
  shows "to_keyframe (JObj kvs) = Inl (KeyError (JStr f))"
proof -
  from to_keyframe_Inr_D [OF assms(3)] obtain decls ds ps where
    c: "check_keys (JObj kvs) [''declarations'', ''values''] = Inr ()" and
    d: "py_getitem (JObj (kvs @ [(f, v)])) ''declarations'' = Inr decls"
       "py_iter decls = Inr ds" "mapM to_property ds = Inr ps"
    by (blast dest: check_keys_snoc)
  from assms(2) consider "f = ''declarations''" | "f = ''values''" by auto
  then show ?thesis
  proof cases
    case 1
    with assms(1) c show ?thesis by (simp add: to_keyframe_def py_getitem_None)
  next
    case 2
    with assms(1) c d show ?thesis
      by (simp add: to_keyframe_def py_getitem_None py_getitem_snoc_other)
  qed
qed

lemma to_keyframes_lacks:
  assumes "map_of kvs f = None" and "f \<in> set (required_fields OfKeyframes)"
    and "to_keyframes (JObj (kvs @ [(f, v)])) = Inr b"
  shows "to_keyframes (JObj kvs) = Inl (KeyError (JStr f))"
proof -
  from to_keyframes_Inr_D [OF assms(3)] obtain kfs ks keyframes vendor where
    c: "check_keys (JObj kvs) [''vendor'', ''name'', ''keyframes''] = Inr ()" and
    d: "py_getitem (JObj (kvs @ [(f, v)])) ''keyframes'' = Inr kfs"
       "py_iter kfs = Inr ks" "mapM to_keyframe ks = Inr keyframes"
       "py_get (JObj (kvs @ [(f, v)])) ''vendor'' (JStr []) = Inr vendor"
    by (blast dest: check_keys_snoc)
  from assms(2) consider "f = ''keyframes''" | "f = ''name''" by auto
  then show ?thesis
  proof cases
    case 1
    with assms(1) c show ?thesis by (simp add: to_keyframes_def py_getitem_None)
  next
    case 2
    with assms(1) c d show ?thesis
      by (simp add: to_keyframes_def py_getitem_None py_getitem_snoc_other py_get_snoc_other)
  qed
qed

lemma to_media_query_lacks:
  assumes "map_of kvs f = None" and "f \<in> set (required_fields OfMedia)"
    and "to_media_query (JObj (kvs @ [(f, v)])) = Inr b"
  shows "to_media_query (JObj kvs) = Inl (KeyError (JStr f))"
proof -
  from to_media_query_Inr_D [OF assms(3)] obtain rs ns rules where
    c: "check_keys (JObj kvs) [''media'', ''rules''] = Inr ()" and
    d: "py_getitem (JObj (kvs @ [(f, v)])) ''rules'' = Inr rs"
       "py_iter rs = Inr ns" "mapM generic_to_node ns = Inr rules"
    by (blast dest: check_keys_snoc)
  from assms(2) consider "f = ''rules''" | "f = ''media''" by auto
  then show ?thesis
  proof cases
    case 1
    with assms(1) c show ?thesis by (simp add: to_media_query.simps py_getitem_None)
  next
    case 2
    with assms(1) c d show ?thesis
      by (simp add: to_media_query.simps py_getitem_None py_getitem_snoc_other)
  qed
qed

lemma to_rule_lacks:
  assumes "map_of kvs f = None" and "f \<in> set (required_fields OfRule)"
    and "to_rule (JObj (kvs @ [(f, v)])) = Inr b"
  shows "to_rule (JObj kvs) = Inl (KeyError (JStr f))"
proof -
  from to_rule_Inr_D [OF assms(3)] obtain sels s where
    c: "check_keys (JObj kvs) [''selectors'', ''declarations''] = Inr ()" and
    d: "py_getitem (JObj (kvs @ [(f, v)])) ''selectors'' = Inr sels"
       "py_join '', '' sels = Inr s"
    by (blast dest: check_keys_snoc)
  from assms(2) consider "f = ''selectors''" | "f = ''declarations''" by auto
  then show ?thesis
  proof cases
    case 1
    with assms(1) c show ?thesis by (simp add: to_rule_def py_getitem_None)
  next
    case 2
    with assms(1) c d show ?thesis
      by (simp add: to_rule_def py_getitem_None py_getitem_snoc_other)
  qed
qed

lemma map_sum_Inr_D: "map_sum id g x = Inr b \<Longrightarrow> \<exists>y. x = Inr y"
  by (cases x) simp_all

lemma converter_lacks:
  assumes "map_of kvs f = None" and "f \<in> set (required_fields k)"
    and "converter k (JObj (kvs @ [(f, v)])) = Inr b"
  shows "converter k (JObj kvs) = Inl (KeyError (JStr f))"
proof (cases k)
  case OfDeclaration
  with assms to_property_lacks [of kvs f v] show ?thesis
    by (auto dest!: map_sum_Inr_D)
next
  case OfCharset
  with assms to_charset_lacks [of kvs f v] show ?thesis
    by (auto dest!: map_sum_Inr_D)
next
  case OfKeyframe
  with assms to_keyframe_lacks [of kvs f v] show ?thesis
    by (auto dest!: map_sum_Inr_D)
next
  case OfKeyframes
  with assms to_keyframes_lacks [of kvs f v] show ?thesis
    by (auto dest!: map_sum_Inr_D)
next
  case OfMedia
  with assms to_media_query_lacks [of kvs f v] show ?thesis
    by (auto dest!: map_sum_Inr_D)
next
  case OfRule
  with assms to_rule_lacks [of kvs f v] show ?thesis
    by (auto dest!: map_sum_Inr_D)
qed

lemma converter_first_field:
  assumes "key_set kvs \<subseteq> allowed_keys (declared_fields k)"
    and "map_of kvs (hd (required_fields k)) = None"
  shows "converter k (JObj kvs) = Inl (KeyError (JStr (hd (required_fields k))))"
proof (cases k)
  case OfDeclaration
  with assms show ?thesis by (simp add: to_property_def py_getitem_None)
next
  case OfCharset
  with assms show ?thesis by (simp add: to_charset_def check_keys_JObj py_getitem_None)
next
  case OfKeyframe
  with assms show ?thesis by (simp add: to_keyframe_def check_keys_JObj py_getitem_None)
next
  case OfKeyframes
  with assms show ?thesis by (simp add: to_keyframes_def check_keys_JObj py_getitem_None)
next
  case OfMedia
  with assms show ?thesis by (simp add: to_media_query.simps check_keys_JObj py_getitem_None)
next
  case OfRule
  with assms show ?thesis by (simp add: to_rule_def check_keys_JObj py_getitem_None)
qed

lemma converter_fails:
  assumes "map_of kvs f = None" and "f \<in> set (required_fields k)"
  shows "isl (converter k (JObj kvs))"
proof (rule ccontr)
  assume "\<not> isl (converter k (JObj kvs))"
  then obtain b where b: "converter k (JObj kvs) = Inr b"
    by (cases "converter k (JObj kvs)") simp_all
  have "py_getitem (JObj kvs) f = Inl (KeyError (JStr f))"
    using assms(1) by (rule py_getitem_None)
  with b assms(2) show False
    by (cases k)
      (auto dest!: map_sum_Inr_D to_property_Inr_D to_charset_Inr_D to_keyframe_Inr_D
        to_keyframes_Inr_D to_media_query_Inr_D to_rule_Inr_D)
qed

text \<open>
  Under a passing key check, a converter fails exactly with the error of the first field,
  in its reading order, whose reading fails.
\<close>

lemma py_get_JObj_Inr: "\<exists>v. py_get (JObj kvs) key dflt = Inr v"
  by (simp add: py_get.simps split: option.splits)

lemma converter_first_error:
  assumes "key_set kvs \<subseteq> allowed_keys (declared_fields k)"
  shows "converter k (JObj kvs) = Inl e \<longleftrightarrow>
         first_error (\<lambda>f. read_field k f (JObj kvs)) (required_fields k) = Some e"
proof (cases k)
  case OfDeclaration
  with assms show ?thesis
    by (auto simp: map_sum_Inl_iff to_property_def check_keys_JObj outcome_def
        split: sum.splits)
next
  case OfCharset
  with assms show ?thesis
    by (auto simp: map_sum_Inl_iff to_charset_def check_keys_JObj outcome_def
        split: sum.splits)
next
  case OfKeyframe
  with assms show ?thesis
    by (auto simp: map_sum_Inl_iff to_keyframe_def check_keys_JObj outcome_def
        split: sum.splits)
next
  case OfKeyframes
  obtain v where "py_get (JObj kvs) ''vendor'' (JStr []) = Inr v"
    using py_get_JObj_Inr by blast
  with OfKeyframes assms show ?thesis
    by (auto simp: map_sum_Inl_iff to_keyframes_def check_keys_JObj outcome_def
        split: sum.splits)
next
  case OfMedia
  with assms show ?thesis
    by (auto simp: map_sum_Inl_iff to_media_query.simps check_keys_JObj outcome_def
        split: sum.splits)
next
  case OfRule
  with assms show ?thesis
    by (auto simp: map_sum_Inl_iff to_rule_def check_keys_JObj outcome_def
        split: sum.splits)
qed

lemma read_field_missing:
  assumes "f \<in> set (required_fields k)" and "map_of kvs f = None"
  shows "read_field k f (JObj kvs) = Some (KeyError (JStr f))"
  using assms by (cases k) (auto simp: py_getitem_None outcome_def)

text \<open>
  Claim C9, as stated, fails: a media query record whose keys are within the allowed
  keys and which lacks \<^verbatim>\<open>media\<close> converts its rules before it reads \<^verbatim>\<open>media\<close>, and a
  rule among them with a key outside its schema makes the conversion fail with the
  assertion carrying that rule's key set and allowed key set, not with a key error.
\<close>

theorem missing_field_nested_violation:
  "key_set media_lacking_media \<subseteq> allowed_keys (declared_fields OfMedia) \<and>
   map_of media_lacking_media ''media'' = None \<and>
   generic_to_node (JObj media_lacking_media) =
     Inl (AssertionError (KeySets (key_set rule_with_unexpected_key)
                                  (allowed_keys [''selectors'', ''declarations''])))"
  by (simp add: media_lacking_media_def rule_with_unexpected_key_def key_set_def
      allowed_keys_def generic_to_node.simps to_media_query.simps to_rule_def check_keys_def
      py_set_def py_getitem.simps)

text \<open>
  Claim C9, amended. For every record whose keys are within the allowed keys of its kind
  and which lacks a field that the converter reads by subscript, the key check passes and
  the conversion fails, never with the assertion carrying this record's key sets. The
  failure is the key error for the missing field when that field is the first one the
  converter reads, and whenever the record would convert with the field supplied (the
  missing field is its only defect). In general the reading of the missing field gives
  that key error, and the converter fails with the error of the first field, in its
  reading order, whose reading fails: when a field read earlier is itself invalid, that
  field's error is raised first.
\<close>

theorem missing_field_passes_check:
  assumes "key_set kvs \<subseteq> allowed_keys (declared_fields k)"
    and "f \<in> set (required_fields k)"
    and "map_of kvs f = None"
  shows "check_keys (JObj kvs) (declared_fields k) = Inr () \<and>
         isl (converter k (JObj kvs)) \<and>
         converter k (JObj kvs) \<noteq>
           Inl (AssertionError (KeySets (key_set kvs) (allowed_keys (declared_fields k)))) \<and>
         (f = hd (required_fields k) \<longrightarrow> converter k (JObj kvs) = Inl (KeyError (JStr f))) \<and>
         (converter k (JObj (kvs @ [(f, v)])) = Inr b \<longrightarrow>
            converter k (JObj kvs) = Inl (KeyError (JStr f))) \<and>
         read_field k f (JObj kvs) = Some (KeyError (JStr f)) \<and>
         (converter k (JObj kvs) = Inl e \<longleftrightarrow>
            first_error (\<lambda>g. read_field k g (JObj kvs)) (required_fields k) = Some e)"
proof -
  have "check_keys (JObj kvs) (declared_fields k) = Inr ()"
    using assms(1) by (simp add: check_keys_JObj)
  moreover have "isl (converter k (JObj kvs))"
    using assms(3,2) by (rule converter_fails)
  moreover have "converter k (JObj kvs) \<noteq>
           Inl (AssertionError (KeySets (key_set kvs) (allowed_keys (declared_fields k))))"
    using converter_proper [of k "JObj kvs"] assms(1) by auto
  moreover have "f = hd (required_fields k) \<longrightarrow> converter k (JObj kvs) = Inl (KeyError (JStr f))"
    using converter_first_field [OF assms(1)] assms(3) by auto
  moreover have "converter k (JObj (kvs @ [(f, v)])) = Inr b \<longrightarrow>
            converter k (JObj kvs) = Inl (KeyError (JStr f))"
    using converter_lacks [OF assms(3,2)] by blast
  moreover have "read_field k f (JObj kvs) = Some (KeyError (JStr f))"
    using assms(2,3) by (rule read_field_missing)
  moreover have "converter k (JObj kvs) = Inl e \<longleftrightarrow>
            first_error (\<lambda>g. read_field k g (JObj kvs)) (required_fields k) = Some e"
    using assms(1) by (rule converter_first_error)
  ultimately show ?thesis by blast
qed

theorem missing_field_passes_check_witness:
  "key_set [(''type'', JStr ''charset'')] \<subseteq> allowed_keys (declared_fields OfCharset) \<and>
   ''charset'' \<in> set (required_fields OfCharset) \<and>
   map_of [(''type'', JStr ''charset'')] ''charset'' = None \<and>
   check_keys (JObj [(''type'', JStr ''charset'')]) [''charset''] = Inr () \<and>
   to_charset (JObj [(''type'', JStr ''charset'')]) = Inl (KeyError (JStr ''charset'')) \<and>
   to_rule (JObj [(''type'', JStr ''rule''), (''selectors'', JArr [JStr ''a''])]) =
     Inl (KeyError (JStr ''declarations'')) \<and>
   key_set [(''type'', JStr ''rule''), (''selectors'', JNull)] \<subseteq>
     allowed_keys (declared_fields OfRule) \<and>
   map_of [(''type'', JStr ''rule''), (''selectors'', JNull)] ''declarations'' = None \<and>
   to_rule (JObj [(''type'', JStr ''rule''), (''selectors'', JNull)]) = Inl TypeError"
proof -
  let ?c = "[(''type'', JStr ''charset'')]"
  let ?r = "[(''type'', JStr ''rule''), (''selectors'', JArr [JStr ''a''])]"
  let ?n = "[(''type'', JStr ''rule''), (''selectors'', JNull)]"
  have 1: "key_set ?c \<subseteq> allowed_keys (declared_fields OfCharset)"
    by (simp add: key_set_def allowed_keys_def)
  have 2: "''charset'' \<in> set (required_fields OfCharset)" by simp
  have 3: "map_of ?c ''charset'' = None" by simp
  have 4: "key_set ?r \<subseteq> allowed_keys (declared_fields OfRule)"
    by (simp add: key_set_def allowed_keys_def)
  have 5: "''declarations'' \<in> set (required_fields OfRule)" by simp
  have 6: "map_of ?r ''declarations'' = None" by simp
  have 7: "converter OfRule (JObj (?r @ [(''declarations'', JArr [])])) =
             Inr (BuiltNode (Rule ''a'' []))"
    by (simp add: to_rule_def check_keys_def py_set_def py_join_def py_getitem.simps)
  have 8: "key_set ?n \<subseteq> allowed_keys (declared_fields OfRule)"
    by (simp add: key_set_def allowed_keys_def)
  have 9: "map_of ?n ''declarations'' = None" by simp
  have 10: "first_error (\<lambda>g. read_field OfRule g (JObj ?n)) (required_fields OfRule) =
              Some TypeError"
    by (simp add: py_getitem.simps py_join_def outcome_def)
  from missing_field_passes_check [OF 1 2 3]
  have a: "check_keys (JObj ?c) [''charset''] = Inr ()"
    and b: "to_charset (JObj ?c) = Inl (KeyError (JStr ''charset''))"
    by (simp_all add: map_sum_Inl_iff)
  from missing_field_passes_check [OF 4 5 6, of "JArr []" "BuiltNode (Rule ''a'' [])"] 7
  have c: "to_rule (JObj ?r) = Inl (KeyError (JStr ''declarations''))"
    by (simp add: map_sum_Inl_iff)
  from missing_field_passes_check [OF 8 5 9, of _ _ TypeError] 10
  have d: "to_rule (JObj ?n) = Inl TypeError"
    by (simp add: map_sum_Inl_iff)
  from 1 2 3 a b c 8 9 d show ?thesis by blast
qed

section \<open>Unknown node types\<close>

text \<open>
  The dispatch of \<^verbatim>\<open>generic_to_node\<close> is the lookup in \<^verbatim>\<open>TO_NODE_TYPES\<close>.
\<close>

lemma generic_to_node_TO_NODE_TYPES:
  "generic_to_node node_dict =
     (case py_getitem node_dict ''type'' of
        Inl e \<Rightarrow> Inl e
      | Inr t \<Rightarrow>
          if \<not> hashable t then Inl TypeError
          else (case map_of (map (\<lambda>kc. (JStr (fst kc), snd kc)) TO_NODE_TYPES) t of
             None \<Rightarrow> Inl (KeyError t)
           | Some to_node \<Rightarrow> to_node node_dict))"
  by (subst generic_to_node.simps) (simp add: TO_NODE_TYPES_def split: sum.splits)






text \<open>
  The key of the lookup must be hashable: a list or a dict as \<^verbatim>\<open>type\<close>, which is no
  type tag and which the parser never gives, is refused by the lookup itself.
\<close>

lemma generic_to_node_unhashable_type:
  "generic_to_node (JObj [(''type'', JArr [JStr ''unknown''])]) = Inl TypeError"
  by (simp add: generic_to_node.simps py_getitem.simps)



section \<open>Order of sequences\<close>

text \<open>
  The joined text of a list of texts has every element between the elements before it
  and those after it; a successful conversion has converted the elements of each
  sequence one by one.
\<close>

lemma py_join_Inr_D:
  "py_join sep v = Inr s \<Longrightarrow>
   \<exists>xs. py_iter v = Inr xs \<and> list_all is_str xs \<and> s = str_join sep (map str_of xs)"
  by (auto simp: py_join_def split: sum.splits if_splits)

lemma str_join_Cons: "str_join sep (x # xs) = x @ (if xs = [] then [] else sep @ str_join sep xs)"
  by (cases xs) simp_all

lemma str_join_position:
  "str_join sep (xs @ x # ys) =
     (if xs = [] then [] else str_join sep xs @ sep) @ x @
     (if ys = [] then [] else sep @ str_join sep ys)"
  by (induction xs) (simp_all add: str_join_Cons)

lemma to_rule_in_order:
  "to_rule d = Inr n \<Longrightarrow>
   \<exists>sels xs decls ds ps.
     py_getitem d ''selectors'' = Inr sels \<and> py_iter sels = Inr xs \<and>
     py_getitem d ''declarations'' = Inr decls \<and> py_iter decls = Inr ds \<and>
     list_all2 (\<lambda>x p. to_property x = Inr p) ds ps \<and>
     n = Rule (str_join '', '' (map str_of xs)) ps"
  by (blast dest: to_rule_Inr_D py_join_Inr_D mapM_Inr_D)

lemma to_keyframe_in_order:
  "to_keyframe d = Inr k \<Longrightarrow>
   \<exists>vals xs decls ds ps.
     py_getitem d ''values'' = Inr vals \<and> py_iter vals = Inr xs \<and>
     py_getitem d ''declarations'' = Inr decls \<and> py_iter decls = Inr ds \<and>
     list_all2 (\<lambda>x p. to_property x = Inr p) ds ps \<and>
     k = KeyFrame (str_join '', '' (map str_of xs)) ps"
  by (blast dest: to_keyframe_Inr_D py_join_Inr_D mapM_Inr_D)

lemma to_keyframes_in_order:
  "to_keyframes d = Inr n \<Longrightarrow>
   \<exists>kfs ks keyframes vendor name.
     py_getitem d ''keyframes'' = Inr kfs \<and> py_iter kfs = Inr ks \<and>
     list_all2 (\<lambda>x k. to_keyframe x = Inr k) ks keyframes \<and>
     n = KeyFrames vendor name keyframes"
  by (blast dest: to_keyframes_Inr_D mapM_Inr_D)

lemma to_media_query_in_order:
  "to_media_query d = Inr n \<Longrightarrow>
   \<exists>rs ns rules media.
     py_getitem d ''rules'' = Inr rs \<and> py_iter rs = Inr ns \<and>
     list_all2 (\<lambda>x r. generic_to_node x = Inr r) ns rules \<and>
     n = MediaQuery media rules"
  by (blast dest: to_media_query_Inr_D mapM_Inr_D)

lemma format_css_Inr_D:
  "format_css py_str env contents kwargs = Inr text \<Longrightarrow>
   \<exists>out err decoded sheet rs ds nodes kw.
     communicate env contents = Inr (0, out, err) \<and> loads env out = Inr decoded \<and>
     py_getitem decoded ''stylesheet'' = Inr sheet \<and> py_getitem sheet ''rules'' = Inr rs \<and>
     py_iter rs = Inr ds \<and> mapM generic_to_node ds = Inr nodes \<and>
     text = concat (map (to_text py_str kw) nodes)"
  by (auto simp: format_css_def Let_def split: sum.splits option.splits if_splits)

lemma format_css_in_order:
  "format_css py_str env contents kwargs = Inr text \<Longrightarrow>
   \<exists>out err decoded sheet rs ds nodes kw.
     communicate env contents = Inr (0, out, err) \<and> loads env out = Inr decoded \<and>
     py_getitem decoded ''stylesheet'' = Inr sheet \<and> py_getitem sheet ''rules'' = Inr rs \<and>
     py_iter rs = Inr ds \<and> list_all2 (\<lambda>d n. generic_to_node d = Inr n) ds nodes \<and>
     text = concat (map (to_text py_str kw) nodes)"
  by (drule format_css_Inr_D) (blast dest: mapM_Inr_D)

text \<open>
  Splitting a text that ends in a newline, followed by another text, gives the lines of
  the one and then the lines of the other; so indentation goes through a concatenation
  of texts that end in a newline, each indented text in its place.
\<close>

lemma splitlines_from_append_LF:
  "splitlines_from acc (a @ LF # b) = splitlines_from acc (a @ [LF]) @ splitlines_from [] b"
proof (induction a arbitrary: acc rule: length_induct)
  case (1 a)
  show ?case
  proof (cases a)
    case Nil
    then show ?thesis by (simp add: is_linebreak_LF LF_not_CR)
  next
    case (Cons c cs)
    note a = this
    show ?thesis
    proof (cases "c = CR")
      case True
      note cr = this
      show ?thesis
      proof (cases cs)
        case Nil
        with a cr show ?thesis by (simp add: is_linebreak_CR)
      next
        case (Cons c' cs')
        have l1: "length cs' < length a" and l2: "length cs < length a"
          using a Cons by simp_all
        from 1 l1 have ih1: "\<And>acc. splitlines_from acc (cs' @ LF # b) =
            splitlines_from acc (cs' @ [LF]) @ splitlines_from [] b" by blast
        from 1 l2 have ih2: "\<And>acc. splitlines_from acc (cs @ LF # b) =
            splitlines_from acc (cs @ [LF]) @ splitlines_from [] b" by blast
        show ?thesis
        proof (cases "c' = LF")
          case True
          with a cr Cons ih1 [of "[]"] show ?thesis by simp
        next
          case False
          with a cr Cons ih2 [of "[]"] show ?thesis by (simp add: is_linebreak_CR)
        qed
      qed
    next
      case False
      have l2: "length cs < length a" using a by simp
      from 1 l2 have ih2: "\<And>acc. splitlines_from acc (cs @ LF # b) =
            splitlines_from acc (cs @ [LF]) @ splitlines_from [] b" by blast
      from False a ih2 [of "[]"] ih2 [of "acc @ [c]"] show ?thesis by simp
    qed
  qed
qed

lemma splitlines_append:
  assumes "ends_nl a"
  shows "splitlines (a @ b) = splitlines a @ splitlines b"
proof (cases "a = []")
  case True
  then show ?thesis by (simp add: splitlines_def)
next
  case False
  with assms obtain a' where "a = a' @ [LF]"
    unfolding ends_nl_def by (metis append_butlast_last_id)
  then show ?thesis
    using splitlines_from_append_LF [of "[]" a' b] by (simp add: splitlines_def)
qed

lemma str_join_unlines: "ls \<noteq> [] \<Longrightarrow> str_join [LF] ls @ [LF] = unlines ls"
  by (induction "[LF]" ls rule: str_join.induct) (simp_all add: unlines_def)

lemma unlines_append: "unlines (xs @ ys) = unlines xs @ unlines ys"
  by (simp add: unlines_def)

lemma indent_unlines:
  "indent t = (if splitlines t = [] then [LF]
               else unlines (map (\<lambda>line. ''    '' @ line) (splitlines t)))"
proof (cases "splitlines t = []")
  case True
  then show ?thesis by (simp add: indent_def LF_def)
next
  case False
  then have "map (\<lambda>line. ''    '' @ line) (splitlines t) \<noteq> []" by simp
  from str_join_unlines [OF this] False show ?thesis
    by (simp add: indent_def LF_def del: append.simps)
qed

lemma splitlines_eq_Nil: "splitlines t = [] \<longleftrightarrow> t = []"
  using splitlines_from_nonempty [of "[]" t] by (auto simp: splitlines_def)

lemma indent_append:
  assumes "ends_nl a" and "a \<noteq> []" and "b \<noteq> []"
  shows "indent (a @ b) = indent a @ indent b"
  using assms
  by (simp add: indent_unlines splitlines_append splitlines_eq_Nil unlines_append)

lemma indent_sandwich:
  assumes "ends_nl a" and "ends_nl t" and "t \<noteq> []"
  shows "indent (a @ t @ b) =
         (if a = [] then [] else indent a) @ indent t @ (if b = [] then [] else indent b)"
proof -
  have 1: "indent (t @ b) = indent t @ (if b = [] then [] else indent b)"
    using assms(2,3) by (simp add: indent_append)
  show ?thesis
  proof (cases "a = []")
    case True
    with 1 show ?thesis by simp
  next
    case False
    with assms(1,3) have "indent (a @ (t @ b)) = indent a @ indent (t @ b)"
      by (intro indent_append) simp_all
    with 1 False show ?thesis by simp
  qed
qed

lemma ends_nl_append: "ends_nl a \<Longrightarrow> ends_nl b \<Longrightarrow> ends_nl (a @ b)"
  by (cases "b = []") (auto simp: ends_nl_def)

lemma ends_nl_concat: "list_all ends_nl xs \<Longrightarrow> ends_nl (concat xs)"
  by (induction xs) (simp_all add: ends_nl_append, simp add: ends_nl_def)

lemma ends_nl_brace: "ends_nl (x @ ''}\<newline>'')"
  by (simp add: ends_nl_def LF_def)

lemma ends_nl_KeyFrame_to_text: "ends_nl (KeyFrame_to_text py_str kw k)"
  by (cases k) (simp add: ends_nl_def LF_def)

lemma KeyFrame_to_text_nonempty: "KeyFrame_to_text py_str kw k \<noteq> []"
  by (cases k) simp

lemma ends_nl_to_text: "ends_nl (to_text py_str kw n)"
  by (cases n) (simp_all add: ends_nl_def LF_def)

lemma ends_nl_concat_map: "(\<And>x. ends_nl (f x)) \<Longrightarrow> ends_nl (concat (map f xs))"
  by (rule ends_nl_concat) (simp add: list_all_iff)

text \<open>
  On nodes whose fields are texts without line boundary, the rendering is the text of the
  lines of the specification.
\<close>

lemma splitlines_unlines_from:
  "list_all no_linebreak ls \<Longrightarrow> splitlines_from [] (unlines ls) = ls"
proof (induction ls)
  case Nil
  show ?case by (simp add: unlines_def)
next
  case (Cons l ls)
  then have "no_linebreak l" and ih: "splitlines_from [] (unlines ls) = ls" by simp_all
  from splitlines_from_line [OF this(1), of "[]" "unlines ls"] ih show ?case
    by (simp add: unlines_def)
qed

lemma no_linebreak_Nil: "no_linebreak []"
  by (simp add: no_linebreak_def)

lemma no_linebreak_append: "no_linebreak (a @ b) \<longleftrightarrow> no_linebreak a \<and> no_linebreak b"
  by (simp add: no_linebreak_def)

lemma spec_indented_no_linebreak:
  "list_all no_linebreak ls \<Longrightarrow> list_all no_linebreak (spec_indented ls)"
  by (simp add: spec_indented_def no_linebreak_Nil list_all_iff no_linebreak_pad del: append.simps)

lemma indent_unlines_lines:
  assumes "list_all no_linebreak ls"
  shows "indent (unlines ls) = unlines (spec_indented ls)"
proof -
  have "splitlines (unlines ls) = ls"
    using assms by (simp add: splitlines_def splitlines_unlines_from)
  then show ?thesis
    by (simp add: indent_unlines spec_indented_def unlines_def del: append.simps)
qed

lemma unlines_concat: "unlines (concat xss) = concat (map unlines xss)"
  by (induction xss) (simp_all add: unlines_append, simp add: unlines_def)

lemma plain_text_str_of: "plain_text v \<Longrightarrow> format_field py_str v = str_of v \<and> no_linebreak (str_of v)"
  by (cases v) simp_all

lemma Property_to_text_plain:
  "plain_property p \<Longrightarrow> Property_to_text py_str kw p = spec_property_line p @ [LF]"
  by (cases p) (simp add: plain_text_str_of LF_def)

lemma no_linebreak_literals:
  "no_linebreak '' {''" "no_linebreak ''}''" "no_linebreak '';''" "no_linebreak ''@charset ''"
  "no_linebreak ''@''" "no_linebreak ''    ''" "no_linebreak '': ''" "no_linebreak ''keyframes ''" "no_linebreak ''@media ''"
  by (simp_all add: no_linebreak_def is_linebreak_def)

lemma spec_property_line_no_linebreak: "plain_property p \<Longrightarrow> no_linebreak (spec_property_line p)"
  by (cases p)
    (simp add: plain_text_str_of no_linebreak_append no_linebreak_literals del: append.simps)

lemma properties_plain:
  "list_all plain_property ps \<Longrightarrow>
   concat (map (Property_to_text py_str kw) ps) = unlines (map spec_property_line ps)"
  by (induction ps) (simp_all add: unlines_def Property_to_text_plain)

lemma KeyFrame_to_text_plain:
  "plain_keyframe k \<Longrightarrow> KeyFrame_to_text py_str kw k = unlines (spec_keyframe_lines k)"
  by (cases k) (simp add: properties_plain unlines_append, simp add: unlines_def LF_def)

lemma spec_keyframe_lines_no_linebreak:
  "plain_keyframe k \<Longrightarrow> list_all no_linebreak (spec_keyframe_lines k)"
  by (cases k)
    (simp add: no_linebreak_append no_linebreak_literals list_all_iff
      spec_property_line_no_linebreak del: append.simps)

lemma list_all_concat_map:
  "(\<And>x. x \<in> set xs \<Longrightarrow> list_all P (f x)) \<Longrightarrow> list_all P (concat (map f xs))"
  by (induction xs) simp_all

lemma keyframes_plain:
  "list_all plain_keyframe ks \<Longrightarrow>
   concat (map (KeyFrame_to_text py_str kw) ks) = unlines (concat (map spec_keyframe_lines ks))"
  by (induction ks) (simp_all add: unlines_def KeyFrame_to_text_plain)

lemma spec_lines_plain:
  "plain_node n \<Longrightarrow>
   to_text py_str kw n = unlines (spec_lines kw n) \<and> list_all no_linebreak (spec_lines kw n)"
proof (induction n)
  case (Charset c)
  then show ?case
    by (simp add: plain_text_str_of no_linebreak_append no_linebreak_literals del: append.simps)
      (simp add: unlines_def LF_def)
next
  case (KeyFrames vendor name ks)
  then have v: "plain_text vendor" and n: "plain_text name" and k: "list_all plain_keyframe ks"
    by simp_all
  have nl: "list_all no_linebreak (concat (map spec_keyframe_lines ks))"
    using k by (intro list_all_concat_map spec_keyframe_lines_no_linebreak) (simp add: list_all_iff)
  have "indent (concat (map (KeyFrame_to_text py_str kw) ks)) =
        unlines (spec_indented (concat (map spec_keyframe_lines ks)))"
    by (simp add: keyframes_plain [OF k] indent_unlines_lines [OF nl])
  with v n nl show ?case
    by (simp add: plain_text_str_of no_linebreak_append no_linebreak_literals
        spec_indented_no_linebreak unlines_append del: append.simps)
      (simp add: unlines_def LF_def)
next
  case (MediaQuery media rules)
  then have m: "plain_text media" and r: "list_all plain_node rules" by simp_all
  with MediaQuery.IH have ih: "\<And>x. x \<in> set rules \<Longrightarrow>
      to_text py_str kw x = unlines (spec_lines kw x) \<and> list_all no_linebreak (spec_lines kw x)"
    by (simp add: list_all_iff)
  then have nl: "list_all no_linebreak (concat (map (spec_lines kw) rules))"
    by (intro list_all_concat_map) simp
  have "map (to_text py_str kw) rules = map (\<lambda>x. unlines (spec_lines kw x)) rules"
    by (rule map_cong [OF refl]) (simp add: ih)
  then have "concat (map (to_text py_str kw) rules) = unlines (concat (map (spec_lines kw) rules))"
    by (simp only: unlines_concat map_map comp_def)
  then have "indent (concat (map (to_text py_str kw) rules)) =
        unlines (spec_indented (concat (map (spec_lines kw) rules)))"
    by (simp add: indent_unlines_lines [OF nl])
  with m nl show ?case
    by (simp add: plain_text_str_of no_linebreak_append no_linebreak_literals
        spec_indented_no_linebreak unlines_append del: append.simps)
      (simp add: unlines_def LF_def)
next
  case (Rule sels props)
  then have s: "no_linebreak sels" and p: "list_all plain_property props" by simp_all
  have "list_all no_linebreak (map spec_property_line props)"
    using p by (simp add: list_all_iff spec_property_line_no_linebreak)
  with s p show ?case
    by (simp add: properties_plain no_linebreak_append no_linebreak_literals unlines_append
        del: append.simps)
      (simp add: unlines_def LF_def)
qed

lemma spec_lines_plain_list:
  "list_all plain_node ns \<Longrightarrow>
   concat (map (to_text py_str kw) ns) = unlines (concat (map (spec_lines kw) ns))"
  by (induction ns) (simp_all add: spec_lines_plain unlines_append, simp add: unlines_def)

text \<open>The place of one element in the text of its sequence.\<close>

lemma rule_nonempty_position:
  "to_text py_str kw (Rule sel (ps @ Property a b # qs)) =
     sel @ '' {\<newline>'' @ concat (map (Property_to_text py_str kw) ps) @
     (''    '' @ format_field py_str a @ '': '' @ format_field py_str b @ '';\<newline>'') @
     concat (map (Property_to_text py_str kw) qs) @ ''}\<newline>''"
  by simp

lemma keyframe_position:
  "KeyFrame_to_text py_str kw (KeyFrame vs (ps @ Property a b # qs)) =
     vs @ '' {\<newline>'' @ concat (map (Property_to_text py_str kw) ps) @
     (''    '' @ format_field py_str a @ '': '' @ format_field py_str b @ '';\<newline>'') @
     concat (map (Property_to_text py_str kw) qs) @ ''}\<newline>''"
  by simp

lemma concat_KeyFrame_to_text_Nil:
  "concat (map (KeyFrame_to_text py_str kw) fs) = [] \<longleftrightarrow> fs = []"
  by (cases fs) (simp_all add: KeyFrame_to_text_nonempty)

lemma keyframes_position:
  "to_text py_str kw (KeyFrames vendor name (fs @ f # gs)) =
     ''@'' @ format_field py_str vendor @ ''keyframes '' @ format_field py_str name @ '' {\<newline>'' @
     (if fs = [] then [] else indent (concat (map (KeyFrame_to_text py_str kw) fs))) @
     indent (KeyFrame_to_text py_str kw f) @
     (if gs = [] then [] else indent (concat (map (KeyFrame_to_text py_str kw) gs))) @
     ''}\<newline>''"
proof -
  have "indent (concat (map (KeyFrame_to_text py_str kw) fs) @ KeyFrame_to_text py_str kw f @
                concat (map (KeyFrame_to_text py_str kw) gs)) =
     (if fs = [] then [] else indent (concat (map (KeyFrame_to_text py_str kw) fs))) @
     indent (KeyFrame_to_text py_str kw f) @
     (if gs = [] then [] else indent (concat (map (KeyFrame_to_text py_str kw) gs)))"
    using indent_sandwich [of "concat (map (KeyFrame_to_text py_str kw) fs)"
        "KeyFrame_to_text py_str kw f" "concat (map (KeyFrame_to_text py_str kw) gs)"]
    by (simp add: ends_nl_concat_map ends_nl_KeyFrame_to_text KeyFrame_to_text_nonempty
        concat_KeyFrame_to_text_Nil)
  then show ?thesis by simp
qed

lemma media_position:
  assumes "to_text py_str kw m \<noteq> []"
  shows "to_text py_str kw (MediaQuery media (ms @ m # ns)) =
     ''@media '' @ format_field py_str media @ '' {\<newline>'' @
     (if concat (map (to_text py_str kw) ms) = [] then []
      else indent (concat (map (to_text py_str kw) ms))) @
     indent (to_text py_str kw m) @
     (if concat (map (to_text py_str kw) ns) = [] then []
      else indent (concat (map (to_text py_str kw) ns))) @
     ''}\<newline>''"
proof -
  have "indent (concat (map (to_text py_str kw) ms) @ to_text py_str kw m @
                concat (map (to_text py_str kw) ns)) =
     (if concat (map (to_text py_str kw) ms) = [] then []
      else indent (concat (map (to_text py_str kw) ms))) @
     indent (to_text py_str kw m) @
     (if concat (map (to_text py_str kw) ns) = [] then []
      else indent (concat (map (to_text py_str kw) ns)))"
    using assms by (intro indent_sandwich ends_nl_concat_map ends_nl_to_text)
  then show ?thesis by simp
qed

lemma media_skips_empty:
  "to_text py_str kw m = [] \<Longrightarrow>
   to_text py_str kw (MediaQuery media (ms @ m # ns)) =
   to_text py_str kw (MediaQuery media (ms @ ns))"
  by simp

text \<open>
  Claim C8. Building keeps every sequence as it is: whenever a rule, a keyframe, a
  keyframes block, a media query or a style sheet converts, the properties, keyframes and
  nodes built are the conversions of the declarations, keyframes and rules of the record,
  element by element in the record's order (the same number of elements, so nothing is
  dropped or merged), and the selectors and values are the elements of the record's list
  joined with a comma and a space, each between those before it and those after it.
  Rendering keeps the order. The line of a property, four spaces, name, colon, value and
  semicolon, stands in the block of its rule or keyframe after the lines of the
  properties before it and before the lines of those after it. In a keyframes block and
  in a media query the indented text of a child stands after the indented text of the
  children before it and before that of the children after it (a child that renders to
  nothing leaves the others in place), and the lines of an indented text are the lines
  of the text, in their order, each behind four spaces. For nodes whose fields are texts
  without line boundary, the text of a sequence of nodes is, line by line, the list of
  lines that the specification gives for the sequence.
\<close>

theorem sequences_keep_input_order:
  "(to_rule d = Inr n \<longrightarrow>
      (\<exists>sels xs decls ds ps.
         py_getitem d ''selectors'' = Inr sels \<and> py_iter sels = Inr xs \<and>
         py_getitem d ''declarations'' = Inr decls \<and> py_iter decls = Inr ds \<and>
         list_all2 (\<lambda>x p. to_property x = Inr p) ds ps \<and>
         n = Rule (str_join '', '' (map str_of xs)) ps)) \<and>
   (to_keyframe d = Inr k \<longrightarrow>
      (\<exists>vals xs decls ds ps.
         py_getitem d ''values'' = Inr vals \<and> py_iter vals = Inr xs \<and>
         py_getitem d ''declarations'' = Inr decls \<and> py_iter decls = Inr ds \<and>
         list_all2 (\<lambda>x p. to_property x = Inr p) ds ps \<and>
         k = KeyFrame (str_join '', '' (map str_of xs)) ps)) \<and>
   (to_keyframes d = Inr n \<longrightarrow>
      (\<exists>kfs ks keyframes vendor name.
         py_getitem d ''keyframes'' = Inr kfs \<and> py_iter kfs = Inr ks \<and>
         list_all2 (\<lambda>x k. to_keyframe x = Inr k) ks keyframes \<and>
         n = KeyFrames vendor name keyframes)) \<and>
   (to_media_query d = Inr n \<longrightarrow>
      (\<exists>rs ns rules media.
         py_getitem d ''rules'' = Inr rs \<and> py_iter rs = Inr ns \<and>
         list_all2 (\<lambda>x r. generic_to_node x = Inr r) ns rules \<and>
         n = MediaQuery media rules)) \<and>
   (format_css py_str env contents kwargs = Inr text \<longrightarrow>
      (\<exists>out err decoded sheet rs ds nodes kw.
         communicate env contents = Inr (0, out, err) \<and> loads env out = Inr decoded \<and>
         py_getitem decoded ''stylesheet'' = Inr sheet \<and> py_getitem sheet ''rules'' = Inr rs \<and>
         py_iter rs = Inr ds \<and> list_all2 (\<lambda>d n. generic_to_node d = Inr n) ds nodes \<and>
         text = concat (map (to_text py_str kw) nodes))) \<and>
   str_join '', '' (ss @ s # ts) =
     (if ss = [] then [] else str_join '', '' ss @ '', '') @ s @
     (if ts = [] then [] else '', '' @ str_join '', '' ts) \<and>
   to_text py_str kw (Rule sel (ps @ Property a b # qs)) =
     sel @ '' {\<newline>'' @ concat (map (Property_to_text py_str kw) ps) @
     (''    '' @ format_field py_str a @ '': '' @ format_field py_str b @ '';\<newline>'') @
     concat (map (Property_to_text py_str kw) qs) @ ''}\<newline>'' \<and>
   KeyFrame_to_text py_str kw (KeyFrame vs (ps @ Property a b # qs)) =
     vs @ '' {\<newline>'' @ concat (map (Property_to_text py_str kw) ps) @
     (''    '' @ format_field py_str a @ '': '' @ format_field py_str b @ '';\<newline>'') @
     concat (map (Property_to_text py_str kw) qs) @ ''}\<newline>'' \<and>
   to_text py_str kw (KeyFrames vendor name (fs @ f # gs)) =
     ''@'' @ format_field py_str vendor @ ''keyframes '' @ format_field py_str name @ '' {\<newline>'' @
     (if fs = [] then [] else indent (concat (map (KeyFrame_to_text py_str kw) fs))) @
     indent (KeyFrame_to_text py_str kw f) @
     (if gs = [] then [] else indent (concat (map (KeyFrame_to_text py_str kw) gs))) @
     ''}\<newline>'' \<and>
   (to_text py_str kw m \<noteq> [] \<longrightarrow>
      to_text py_str kw (MediaQuery media (ms @ m # ns)) =
        ''@media '' @ format_field py_str media @ '' {\<newline>'' @
        (if concat (map (to_text py_str kw) ms) = [] then []
         else indent (concat (map (to_text py_str kw) ms))) @
        indent (to_text py_str kw m) @
        (if concat (map (to_text py_str kw) ns) = [] then []
         else indent (concat (map (to_text py_str kw) ns))) @
        ''}\<newline>'') \<and>
   (to_text py_str kw m = [] \<longrightarrow>
      to_text py_str kw (MediaQuery media (ms @ m # ns)) =
      to_text py_str kw (MediaQuery media (ms @ ns))) \<and>
   (t \<noteq> [] \<longrightarrow> splitlines (indent t) = map (\<lambda>line. ''    '' @ line) (splitlines t)) \<and>
   (list_all plain_node nodes \<longrightarrow>
      concat (map (to_text py_str kw) nodes) = unlines (concat (map (spec_lines kw) nodes)))"
proof -
  note to_rule_in_order [of d n] to_keyframe_in_order [of d k] to_keyframes_in_order [of d n]
    to_media_query_in_order [of d n] format_css_in_order [of py_str env contents kwargs "text"]
  moreover note str_join_position [of "'', ''" ss s ts]
  moreover note rule_nonempty_position [of py_str kw sel ps a b qs]
  moreover note keyframe_position [of py_str kw vs ps a b qs]
  moreover note keyframes_position [of py_str kw vendor name fs f gs]
  moreover note media_position [of py_str kw m media ms ns]
  moreover note media_skips_empty [of py_str kw m media ms ns]
  moreover note indent_splitlines [of t]
  moreover note spec_lines_plain_list [of nodes py_str kw]
  ultimately show ?thesis by blast
qed

text \<open>The sample records convert to nodes with the same repetitions, in the same order.\<close>

lemma to_rule_rule_b_a_b:
  "to_rule rule_b_a_b =
     Inr (Rule ''b, a, b''
            [Property (JStr ''color'') (JStr ''red''), Property (JStr ''color'') (JStr ''blue''),
             Property (JStr ''color'') (JStr ''red'')])"
  by (simp add: rule_b_a_b_def to_rule_def check_keys_def py_set_def py_join_def py_getitem.simps
      to_property_declaration_record)

lemma to_keyframe_keyframe_to_from:
  "to_keyframe keyframe_to_from =
     Inr (KeyFrame ''to, from''
            [Property (JStr ''top'') (JStr ''1px''), Property (JStr ''left'') (JStr ''0'')])"
  by (simp add: keyframe_to_from_def to_keyframe_def check_keys_def py_set_def py_join_def
      py_getitem.simps to_property_declaration_record)

lemma to_keyframes_keyframes_twice:
  "to_keyframes keyframes_twice =
     Inr (KeyFrames (JStr []) (JStr ''spin'')
            [KeyFrame ''to, from''
               [Property (JStr ''top'') (JStr ''1px''), Property (JStr ''left'') (JStr ''0'')],
             KeyFrame ''to, from''
               [Property (JStr ''top'') (JStr ''1px''), Property (JStr ''left'') (JStr ''0'')]])"
  by (simp add: keyframes_twice_def to_keyframes_def check_keys_def py_set_def
      py_getitem.simps py_get.simps to_keyframe_keyframe_to_from)

lemma generic_to_node_rule_b_a_b: "generic_to_node rule_b_a_b = to_rule rule_b_a_b"
  by (simp add: generic_to_node.simps rule_b_a_b_def py_getitem.simps)

lemma generic_to_node_keyframes_twice:
  "generic_to_node keyframes_twice = to_keyframes keyframes_twice"
  by (simp add: generic_to_node.simps keyframes_twice_def py_getitem.simps)

lemma to_media_query_media_with_rules:
  "to_media_query media_with_rules =
     Inr (MediaQuery (JStr ''print'')
       [Rule ''b, a, b''
            [Property (JStr ''color'') (JStr ''red''), Property (JStr ''color'') (JStr ''blue''),
             Property (JStr ''color'') (JStr ''red'')],
        KeyFrames (JStr []) (JStr ''spin'')
            [KeyFrame ''to, from''
               [Property (JStr ''top'') (JStr ''1px''), Property (JStr ''left'') (JStr ''0'')],
             KeyFrame ''to, from''
               [Property (JStr ''top'') (JStr ''1px''), Property (JStr ''left'') (JStr ''0'')]],
        Rule ''b, a, b''
            [Property (JStr ''color'') (JStr ''red''), Property (JStr ''color'') (JStr ''blue''),
             Property (JStr ''color'') (JStr ''red'')]])"
  by (subst to_media_query.simps)
    (simp add: media_with_rules_def check_keys_def py_set_def py_getitem.simps
      generic_to_node_rule_b_a_b generic_to_node_keyframes_twice
      to_rule_rule_b_a_b to_keyframes_keyframes_twice)

lemma generic_to_node_media_with_rules:
  "generic_to_node media_with_rules = to_media_query media_with_rules"
  by (simp add: generic_to_node.simps media_with_rules_def py_getitem.simps)

theorem sequences_keep_input_order_witness:
  "to_rule rule_b_a_b = Inr node_b_a_b \<and>
   list_all2 (\<lambda>x p. to_property x = Inr p)
     [declaration_record ''color'' ''red'', declaration_record ''color'' ''blue'',
      declaration_record ''color'' ''red'']
     [Property (JStr ''color'') (JStr ''red''), Property (JStr ''color'') (JStr ''blue''),
      Property (JStr ''color'') (JStr ''red'')] \<and>
   (\<exists>k. to_keyframe keyframe_to_from = Inr k \<and>
      list_all2 (\<lambda>x p. to_property x = Inr p)
        [declaration_record ''top'' ''1px'', declaration_record ''left'' ''0'']
        (case k of KeyFrame vs ps \<Rightarrow> ps)) \<and>
   (\<exists>vendor name ks. to_keyframes keyframes_twice = Inr (KeyFrames vendor name ks) \<and>
      list_all2 (\<lambda>x k. to_keyframe x = Inr k) [keyframe_to_from, keyframe_to_from] ks) \<and>
   (\<exists>media rules. to_media_query media_with_rules = Inr (MediaQuery media rules) \<and>
      list_all2 (\<lambda>x r. generic_to_node x = Inr r) [rule_b_a_b, keyframes_twice, rule_b_a_b] rules) \<and>
   format_css no_str ordered_env ''b,a,b{}@media print{}'' [] = Inr ordered_text \<and>
   (\<exists>nodes kw. list_all2 (\<lambda>d n. generic_to_node d = Inr n) [rule_b_a_b, media_with_rules] nodes \<and>
      ordered_text = concat (map (to_text no_str kw) nodes)) \<and>
   list_all plain_node
     [node_b_a_b, MediaQuery (JStr ''print'') [node_b_a_b, node_keyframes_twice, node_b_a_b]] \<and>
   concat (map (to_text no_str \<lparr>ignore_charset = False, ignore_empty_rules = False\<rparr>)
     [node_b_a_b, MediaQuery (JStr ''print'') [node_b_a_b, node_keyframes_twice, node_b_a_b]]) =
     ordered_text \<and>
   to_text no_str \<lparr>ignore_charset = False, ignore_empty_rules = False\<rparr> node_keyframes_twice \<noteq> [] \<and>
   to_text no_str \<lparr>ignore_charset = False, ignore_empty_rules = False\<rparr>
     (MediaQuery (JStr ''print'') [node_b_a_b, node_keyframes_twice, node_b_a_b]) =
     ''@media print {\<newline>'' @
     indent (to_text no_str \<lparr>ignore_charset = False, ignore_empty_rules = False\<rparr> node_b_a_b) @
     indent (to_text no_str \<lparr>ignore_charset = False, ignore_empty_rules = False\<rparr> node_keyframes_twice) @
     indent (to_text no_str \<lparr>ignore_charset = False, ignore_empty_rules = False\<rparr> node_b_a_b) @
     ''}\<newline>'' \<and>
   splitlines (indent ''b {\<newline>    color: red;\<newline>}\<newline>'') =
     [''    b {'', ''        color: red;'', ''    }''] \<and>
   to_text no_str \<lparr>ignore_charset = False, ignore_empty_rules = True\<rparr> (Rule ''a'' []) = [] \<and>
   to_text no_str \<lparr>ignore_charset = False, ignore_empty_rules = True\<rparr>
     (MediaQuery (JStr ''print'') [node_b_a_b, Rule ''a'' [], node_keyframes_twice]) =
   to_text no_str \<lparr>ignore_charset = False, ignore_empty_rules = True\<rparr>
     (MediaQuery (JStr ''print'') [node_b_a_b, node_keyframes_twice])"
proof -
  note order = sequences_keep_input_order
  let ?kw = "\<lparr>ignore_charset = False, ignore_empty_rules = False\<rparr>"
  let ?media = "MediaQuery (JStr ''print'') [node_b_a_b, node_keyframes_twice, node_b_a_b]"
  have 1: "to_rule rule_b_a_b = Inr node_b_a_b"
    by (simp add: to_rule_rule_b_a_b node_b_a_b_def)
  from order [THEN conjunct1, rule_format, OF 1]
  have a: "list_all2 (\<lambda>x p. to_property x = Inr p)
     [declaration_record ''color'' ''red'', declaration_record ''color'' ''blue'',
      declaration_record ''color'' ''red'']
     [Property (JStr ''color'') (JStr ''red''), Property (JStr ''color'') (JStr ''blue''),
      Property (JStr ''color'') (JStr ''red'')]"
    by (auto simp: rule_b_a_b_def node_b_a_b_def py_getitem.simps)
  note 2 = to_keyframe_keyframe_to_from
  from order [THEN conjunct2, THEN conjunct1, rule_format, OF 2]
  have b: "\<exists>k. to_keyframe keyframe_to_from = Inr k \<and>
      list_all2 (\<lambda>x p. to_property x = Inr p)
        [declaration_record ''top'' ''1px'', declaration_record ''left'' ''0'']
        (case k of KeyFrame vs ps \<Rightarrow> ps)"
    using 2 by (auto simp: keyframe_to_from_def py_getitem.simps)
  note 3 = to_keyframes_keyframes_twice
  from order [THEN conjunct2, THEN conjunct2, THEN conjunct1, rule_format, OF 3]
  have c: "\<exists>vendor name ks. to_keyframes keyframes_twice = Inr (KeyFrames vendor name ks) \<and>
      list_all2 (\<lambda>x k. to_keyframe x = Inr k) [keyframe_to_from, keyframe_to_from] ks"
    using 3 by (auto simp: keyframes_twice_def py_getitem.simps)
  note 4 = to_media_query_media_with_rules
  from order [THEN conjunct2, THEN conjunct2, THEN conjunct2, THEN conjunct1, rule_format, OF 4]
  have d: "\<exists>media rules. to_media_query media_with_rules = Inr (MediaQuery media rules) \<and>
      list_all2 (\<lambda>x r. generic_to_node x = Inr r) [rule_b_a_b, keyframes_twice, rule_b_a_b] rules"
    using 4 by (auto simp: media_with_rules_def py_getitem.simps)
  have p: "list_all plain_node [node_b_a_b, ?media]"
    by (simp add: node_b_a_b_def node_keyframes_twice_def no_linebreak_def is_linebreak_def)
  from order [THEN conjunct2, THEN conjunct2, THEN conjunct2, THEN conjunct2,
      THEN conjunct2, THEN conjunct2, THEN conjunct2, THEN conjunct2, THEN conjunct2,
      THEN conjunct2, THEN conjunct2, THEN conjunct2, rule_format, OF p, of no_str ?kw]
  have t: "concat (map (to_text no_str ?kw) [node_b_a_b, ?media]) = ordered_text"
    by (simp add: node_b_a_b_def node_keyframes_twice_def unlines_def spec_indented_def LF_def
        ordered_text_def)
  have g: "mapM generic_to_node [rule_b_a_b, media_with_rules] = Inr [node_b_a_b, ?media]"
    by (simp add: generic_to_node_rule_b_a_b generic_to_node_media_with_rules
        to_rule_rule_b_a_b to_media_query_media_with_rules node_b_a_b_def node_keyframes_twice_def)
  have 5: "format_css no_str ordered_env ''b,a,b{}@media print{}'' [] = Inr ordered_text"
    using g t by (simp add: format_css_def ordered_env_def ordered_sheet_def py_getitem.simps)
  from order [THEN conjunct2, THEN conjunct2, THEN conjunct2, THEN conjunct2, THEN conjunct1,
      rule_format, OF 5]
  obtain out decoded sheet rs ds nodes kw where
    l: "loads ordered_env out = Inr decoded" and
    s: "py_getitem decoded ''stylesheet'' = Inr sheet" and
    r: "py_getitem sheet ''rules'' = Inr rs" and
    i: "py_iter rs = Inr ds" and
    n: "list_all2 (\<lambda>d n. generic_to_node d = Inr n) ds nodes" and
    x: "ordered_text = concat (map (to_text no_str kw) nodes)"
    by blast
  from l have "decoded = ordered_sheet" by (simp add: ordered_env_def)
  with s r i have "ds = [rule_b_a_b, media_with_rules]"
    by (auto simp: ordered_sheet_def py_getitem.simps)
  with n x have e: "\<exists>nodes kw.
      list_all2 (\<lambda>d n. generic_to_node d = Inr n) [rule_b_a_b, media_with_rules] nodes \<and>
      ordered_text = concat (map (to_text no_str kw) nodes)"
    by blast
  have 6: "to_text no_str ?kw node_keyframes_twice \<noteq> []"
    by (simp add: node_keyframes_twice_def)
  have 7: "to_text no_str ?kw node_b_a_b \<noteq> []"
    by (simp add: node_b_a_b_def)
  from order [THEN conjunct2, THEN conjunct2, THEN conjunct2, THEN conjunct2,
      THEN conjunct2, THEN conjunct2, THEN conjunct2, THEN conjunct2, THEN conjunct2,
      THEN conjunct1, rule_format, OF 6, of "JStr ''print''" "[node_b_a_b]" "[node_b_a_b]"] 7
  have f: "to_text no_str ?kw ?media =
     ''@media print {\<newline>'' @ indent (to_text no_str ?kw node_b_a_b) @
     indent (to_text no_str ?kw node_keyframes_twice) @
     indent (to_text no_str ?kw node_b_a_b) @ ''}\<newline>''"
    by simp
  have 8: "''b {\<newline>    color: red;\<newline>}\<newline>'' \<noteq> []" by simp
  from order [THEN conjunct2, THEN conjunct2, THEN conjunct2, THEN conjunct2,
      THEN conjunct2, THEN conjunct2, THEN conjunct2, THEN conjunct2, THEN conjunct2,
      THEN conjunct2, THEN conjunct2, THEN conjunct1, rule_format, OF 8]
  have h: "splitlines (indent ''b {\<newline>    color: red;\<newline>}\<newline>'') =
     [''    b {'', ''        color: red;'', ''    }'']"
    by (simp add: splitlines_def LF_def CR_def is_linebreak_def)
  have 9: "to_text no_str \<lparr>ignore_charset = False, ignore_empty_rules = True\<rparr> (Rule ''a'' []) = []"
    by simp
  from order [THEN conjunct2, THEN conjunct2, THEN conjunct2, THEN conjunct2,
      THEN conjunct2, THEN conjunct2, THEN conjunct2, THEN conjunct2, THEN conjunct2,
      THEN conjunct2, THEN conjunct1, rule_format, OF 9,
      of "JStr ''print''" "[node_b_a_b]" "[node_keyframes_twice]"]
  have j: "to_text no_str \<lparr>ignore_charset = False, ignore_empty_rules = True\<rparr>
     (MediaQuery (JStr ''print'') [node_b_a_b, Rule ''a'' [], node_keyframes_twice]) =
   to_text no_str \<lparr>ignore_charset = False, ignore_empty_rules = True\<rparr>
     (MediaQuery (JStr ''print'') [node_b_a_b, node_keyframes_twice])"
    by simp
  from 1 a b c d 5 e p t 6 f h 9 j show ?thesis by blast
qed

end
